theory Spec2Isabelle
  imports Complex_Main "HOL-Library.AList"
begin

section \<open>JavaScript values\<close>

text \<open>
  The program is untyped JavaScript working on whatever \<open>JSON.parse\<close> returns, so the
  model works on a datatype of JavaScript values. Text is modelled over Isabelle's
  8-bit characters, read as the code units U+0000 to U+00FF. Numbers are the exact
  rationals their decimal literals denote, with the three non-finite values of the
  language beside them; the rounding of a literal to an IEEE double and the negative
  zero are not modelled, and where the program adds numbers the addition is a parameter
  of the model. No value is a function: the values are those that \<open>JSON.parse\<close> returns
  and those that the program builds from them. An object is the list of its entries,
  with at most one entry for a key.
\<close>

datatype error = SyntaxError | TypeError

datatype jsnumber = NaN | PosInfinity | NegInfinity | Fin rat

datatype jsval =
    JUndefined
  | JNull
  | JBool bool
  | JNum jsnumber
  | JStr string
  | JArr "jsval list"
  | JObj "(string \<times> jsval) list"

subsection \<open>Characters, white space, joining\<close>

definition is_digit :: "char \<Rightarrow> bool" where
  "is_digit c = (c \<in> set ''0123456789'')"

definition digit_val :: "char \<Rightarrow> nat" where
  "digit_val c = of_char c - 48"

definition digits_val :: "string \<Rightarrow> nat" where
  "digits_val ds = foldl (\<lambda>n c. 10 * n + digit_val c) 0 ds"

text \<open>
  \<open>String.prototype.trim\<close> removes the white space and line terminators of the
  language at both ends; in the range of the model these are TAB, LF, VT, FF, CR, the
  space and the no-break space.
\<close>

definition is_js_space :: "char \<Rightarrow> bool" where
  "is_js_space c =
     (c \<in> set [CHR 0x09, CHR 0x0A, CHR 0x0B, CHR 0x0C, CHR 0x0D, CHR 0x20, CHR 0xA0])"

definition trim :: "string \<Rightarrow> string" where
  "trim s = rev (dropWhile is_js_space (rev (dropWhile is_js_space s)))"

text \<open>\<open>Array.prototype.join\<close> on an array of strings.\<close>

fun join :: "string \<Rightarrow> string list \<Rightarrow> string" where
  "join sep [] = []"
| "join sep [x] = x"
| "join sep (x # y # ys) = x @ sep @ join sep (y # ys)"

subsection \<open>Number to string\<close>

definition digit_char :: "nat \<Rightarrow> char" where
  "digit_char d = ''0123456789'' ! d"

function nat_digits :: "nat \<Rightarrow> string" where
  "nat_digits n =
     (if n < 10 then [digit_char n] else nat_digits (n div 10) @ [digit_char (n mod 10)])"
  by pat_completeness auto
termination
  by (relation "measure (\<lambda>n. n)") auto

declare nat_digits.simps [simp del]

text \<open>
  The digits after the decimal point of a rational in \<open>[0, 1)\<close>. A JavaScript number
  has at most 1074 of them; the fuel covers that.
\<close>

fun frac_digits :: "nat \<Rightarrow> rat \<Rightarrow> string" where
  "frac_digits 0 r = []"
| "frac_digits (Suc fuel) r =
     (if r = 0 then []
      else digit_char (nat \<lfloor>10 * r\<rfloor>) # frac_digits fuel (10 * r - of_int \<lfloor>10 * r\<rfloor>))"

definition strip_right_zeros :: "string \<Rightarrow> string" where
  "strip_right_zeros ds = rev (dropWhile (\<lambda>c. c = CHR ''0'') (rev ds))"

text \<open>
  \<open>Number::toString\<close> of a positive number: with the significant digits \<open>ds\<close>
  (\<open>k\<close> of them) and the decimal exponent \<open>n\<close> such that the number is
  \<open>0.ds \<times> 10\<^sup>n\<close>, the four notations of the language.
\<close>

definition pos_to_string :: "rat \<Rightarrow> string" where
  "pos_to_string r =
     (let ip = nat \<lfloor>r\<rfloor>;
          fd = frac_digits 1100 (r - of_int \<lfloor>r\<rfloor>);
          lead = (if ip = 0 then [] else nat_digits ip);
          zs = (if ip = 0 then length (takeWhile (\<lambda>c. c = CHR ''0'') fd) else 0);
          ds = strip_right_zeros (lead @ drop zs fd);
          k = int (length ds);
          n = int (length lead) - int zs
      in if k \<le> n \<and> n \<le> 21 then ds @ replicate (nat (n - k)) (CHR ''0'')
         else if 0 < n \<and> n \<le> 21 then take (nat n) ds @ ''.'' @ drop (nat n) ds
         else if - 6 < n \<and> n \<le> 0 then ''0.'' @ replicate (nat (- n)) (CHR ''0'') @ ds
         else take 1 ds @ (if k = 1 then [] else ''.'' @ drop 1 ds) @ ''e''
              @ (if 0 \<le> n - 1 then ''+'' else ''-'') @ nat_digits (nat \<bar>n - 1\<bar>))"

definition number_to_string :: "jsnumber \<Rightarrow> string" where
  "number_to_string x =
     (case x of
        NaN \<Rightarrow> ''NaN''
      | PosInfinity \<Rightarrow> ''Infinity''
      | NegInfinity \<Rightarrow> ''-Infinity''
      | Fin r \<Rightarrow> (if r = 0 then ''0''
                  else if r < 0 then ''-'' @ pos_to_string (- r)
                  else pos_to_string r))"

subsection \<open>String to number\<close>

text \<open>
  \<open>Number(s)\<close> on a string: the text is trimmed; the empty text is 0; then come the
  signed \<open>Infinity\<close>, the unsigned hexadecimal, octal and binary integers, and the signed
  decimal literal with an optional fraction and exponent. Anything else is \<open>NaN\<close>.
\<close>

definition scale10 :: "rat \<Rightarrow> int \<Rightarrow> rat" where
  "scale10 x e = (if 0 \<le> e then x * 10 ^ nat e else x / 10 ^ nat (- e))"

definition exponent_part :: "string \<Rightarrow> int option" where
  "exponent_part r =
     (case r of
        [] \<Rightarrow> Some 0
      | c # t \<Rightarrow>
          if c = CHR ''e'' \<or> c = CHR ''E'' then
            (let neg = (take 1 t = ''-'');
                 ds = (if take 1 t = ''+'' \<or> take 1 t = ''-'' then drop 1 t else t)
             in if ds \<noteq> [] \<and> list_all is_digit ds
                then Some (if neg then - int (digits_val ds) else int (digits_val ds))
                else None)
          else None)"

definition decimal_literal :: "string \<Rightarrow> rat option" where
  "decimal_literal body =
     (let ip = takeWhile is_digit body;
          r1 = dropWhile is_digit body;
          dot = (take 1 r1 = ''.'');
          fp = (if dot then takeWhile is_digit (drop 1 r1) else []);
          r2 = (if dot then dropWhile is_digit (drop 1 r1) else r1)
      in if ip = [] \<and> fp = [] then None
         else (case exponent_part r2 of
                 None \<Rightarrow> None
               | Some e \<Rightarrow>
                   Some (scale10 (of_nat (digits_val ip)
                                  + of_nat (digits_val fp) / 10 ^ length fp) e)))"

definition radix_digit :: "char \<Rightarrow> nat option" where
  "radix_digit c =
     (if is_digit c then Some (digit_val c)
      else if c \<in> set ''abcdef'' then Some (of_char c - 87)
      else if c \<in> set ''ABCDEF'' then Some (of_char c - 55)
      else None)"

definition radix_literal :: "nat \<Rightarrow> string \<Rightarrow> jsnumber" where
  "radix_literal b ds =
     (if ds \<noteq> [] \<and> list_all (\<lambda>c. case radix_digit c of None \<Rightarrow> False | Some d \<Rightarrow> d < b) ds
      then Fin (of_nat (foldl (\<lambda>n c. b * n + the (radix_digit c)) 0 ds))
      else NaN)"

definition StringToNumber :: "string \<Rightarrow> jsnumber" where
  "StringToNumber s =
     (let t = trim s in
      if t = [] then Fin 0
      else if take 2 t = ''0x'' \<or> take 2 t = ''0X'' then radix_literal 16 (drop 2 t)
      else if take 2 t = ''0o'' \<or> take 2 t = ''0O'' then radix_literal 8 (drop 2 t)
      else if take 2 t = ''0b'' \<or> take 2 t = ''0B'' then radix_literal 2 (drop 2 t)
      else
        (let neg = (take 1 t = ''-'');
             body = (if take 1 t = ''+'' \<or> take 1 t = ''-'' then drop 1 t else t)
         in if body = ''Infinity'' then (if neg then NegInfinity else PosInfinity)
            else (case decimal_literal body of
                    None \<Rightarrow> NaN
                  | Some r \<Rightarrow> Fin (if neg then - r else r))))"

subsection \<open>The coercions \<open>String\<close>, \<open>Number\<close> and \<open>Boolean\<close>\<close>

text \<open>
  \<open>String(v)\<close> on a plain object calls the object's \<open>toString\<close> and, if that is no
  function, its \<open>valueOf\<close>. An object without an entry named \<open>toString\<close> inherits the
  method that returns \<open>[object Object]\<close>. An object with such an entry of its own has no
  method there, since no value of the model is a function; the inherited \<open>valueOf\<close>
  returns the object itself, an own entry named \<open>valueOf\<close> is no function either, and
  the conversion throws a \<open>TypeError\<close>. An array is the join of its elements with
  commas, \<open>null\<close> and \<open>undefined\<close> elements giving the empty text and every other
  element being converted in turn, so that an element whose conversion throws makes the
  conversion of the array throw.
\<close>

fun to_String :: "jsval \<Rightarrow> error + string"
  and elements_to_String :: "jsval list \<Rightarrow> error + string list" where
  "to_String JUndefined = Inr ''undefined''"
| "to_String JNull = Inr ''null''"
| "to_String (JBool b) = Inr (if b then ''true'' else ''false'')"
| "to_String (JNum x) = Inr (number_to_string x)"
| "to_String (JStr s) = Inr s"
| "to_String (JArr xs) =
     (case elements_to_String xs of Inl e \<Rightarrow> Inl e | Inr ss \<Rightarrow> Inr (join '','' ss))"
| "to_String (JObj al) =
     (if ''toString'' \<in> set (map fst al) then Inl TypeError else Inr ''[object Object]'')"
| "elements_to_String [] = Inr []"
| "elements_to_String (x # xs) =
     (case (if x = JUndefined \<or> x = JNull then Inr [] else to_String x) of
        Inl e \<Rightarrow> Inl e
      | Inr s \<Rightarrow> (case elements_to_String xs of Inl e \<Rightarrow> Inl e | Inr ss \<Rightarrow> Inr (s # ss)))"

text \<open>
  \<open>Number(v)\<close> on an array or an object first makes it a primitive: \<open>valueOf\<close> returns
  the value itself or is no function, so the text of \<open>toString\<close> is read as a number,
  and the conversion throws where \<open>String(v)\<close> throws.
\<close>

fun to_Number :: "jsval \<Rightarrow> error + jsnumber" where
  "to_Number JUndefined = Inr NaN"
| "to_Number JNull = Inr (Fin 0)"
| "to_Number (JBool b) = Inr (Fin (if b then 1 else 0))"
| "to_Number (JNum x) = Inr x"
| "to_Number (JStr s) = Inr (StringToNumber s)"
| "to_Number (JArr xs) =
     (case to_String (JArr xs) of Inl e \<Rightarrow> Inl e | Inr s \<Rightarrow> Inr (StringToNumber s))"
| "to_Number (JObj al) =
     (case to_String (JObj al) of Inl e \<Rightarrow> Inl e | Inr s \<Rightarrow> Inr (StringToNumber s))"

fun to_Boolean :: "jsval \<Rightarrow> bool" where
  "to_Boolean JUndefined = False"
| "to_Boolean JNull = False"
| "to_Boolean (JBool b) = b"
| "to_Boolean (JNum x) = (x \<noteq> NaN \<and> x \<noteq> Fin 0)"
| "to_Boolean (JStr s) = (s \<noteq> [])"
| "to_Boolean (JArr xs) = True"
| "to_Boolean (JObj al) = True"

text \<open>The comparisons \<open><=\<close> and \<open>>=\<close> on numbers: false as soon as one side is \<open>NaN\<close>.\<close>

fun num_le :: "jsnumber \<Rightarrow> jsnumber \<Rightarrow> bool" where
  "num_le NaN y = False"
| "num_le x NaN = False"
| "num_le NegInfinity y = True"
| "num_le x PosInfinity = True"
| "num_le PosInfinity y = False"
| "num_le x NegInfinity = False"
| "num_le (Fin a) (Fin b) = (a \<le> b)"

definition num_ge :: "jsnumber \<Rightarrow> jsnumber \<Rightarrow> bool" where
  "num_ge x y = num_le y x"

subsection \<open>Reading properties\<close>

text \<open>
  \<open>v.k\<close> throws a \<open>TypeError\<close> on \<open>null\<close> and \<open>undefined\<close>; on an object it is the
  entry of the key or \<open>undefined\<close>. The keys the program reads (\<open>triggerProduct\<close>,
  \<open>product_variants\<close>, \<open>variant_price\<close> and the like) are none of the built-in
  properties of strings, arrays, numbers and booleans, so on these the read is
  \<open>undefined\<close>. \<open>v?.k\<close> is \<open>undefined\<close> where \<open>v.k\<close> would throw.
\<close>

definition member :: "jsval \<Rightarrow> string \<Rightarrow> jsval" where
  "member v k =
     (case v of
        JObj al \<Rightarrow> (case map_of al k of None \<Rightarrow> JUndefined | Some x \<Rightarrow> x)
      | _ \<Rightarrow> JUndefined)"

definition get_prop :: "jsval \<Rightarrow> string \<Rightarrow> error + jsval" where
  "get_prop v k = (if v = JUndefined \<or> v = JNull then Inl TypeError else Inr (member v k))"

definition opt_prop :: "jsval \<Rightarrow> string \<Rightarrow> jsval" where
  "opt_prop v k = (if v = JUndefined \<or> v = JNull then JUndefined else member v k)"

text \<open>\<open>a || b\<close> and \<open>a ?? b\<close>.\<close>

definition or_else :: "jsval \<Rightarrow> jsval \<Rightarrow> jsval" where
  "or_else a b = (if to_Boolean a then a else b)"

definition nullish_else :: "jsval \<Rightarrow> jsval \<Rightarrow> jsval" where
  "nullish_else a b = (if a = JUndefined \<or> a = JNull then b else a)"

section \<open>CSV cells (App.jsx, lines 462 to 467; product explorer, lines 133 to 138)\<close>

text \<open>
  \<^verbatim>\<open>const toCSV = (val) => {
    if (val === null || val === undefined) return "";
    const str = String(val).replaceAll('"', '""');
    if (str.includes(",") || str.includes("\n") || str.includes('"')) return `"${str}"`;
    return str;
  };\<close>
\<close>

definition replaceAll_quote :: "string \<Rightarrow> string" where
  "replaceAll_quote s = concat (map (\<lambda>c. if c = CHR 0x22 then [CHR 0x22, CHR 0x22] else [c]) s)"

definition toCSV :: "jsval \<Rightarrow> error + string" where
  "toCSV val =
     (if val = JNull \<or> val = JUndefined then Inr []
      else (case to_String val of
              Inl e \<Rightarrow> Inl e
            | Inr s \<Rightarrow>
               (let str = replaceAll_quote s
                in if CHR '','' \<in> set str \<or> CHR 0x0A \<in> set str \<or> CHR 0x22 \<in> set str
                   then Inr ([CHR 0x22] @ str @ [CHR 0x22])
                   else Inr str)))"

text \<open>
  \<open>JSON.stringify\<close> without indentation. A string is quoted with the escapes of the
  language; a number that is not finite is \<open>null\<close>; an \<open>undefined\<close> element of an array
  is \<open>null\<close> and an \<open>undefined\<close> entry of an object is left out; \<open>undefined\<close> itself has
  no serialization.
\<close>

definition hex_char :: "nat \<Rightarrow> char" where
  "hex_char d = ''0123456789abcdef'' ! d"

definition quote_char :: "char \<Rightarrow> string" where
  "quote_char c =
     (if c = CHR 0x22 then [CHR 0x5C, CHR 0x22]
      else if c = CHR 0x5C then [CHR 0x5C, CHR 0x5C]
      else if c = CHR 0x08 then [CHR 0x5C, CHR ''b'']
      else if c = CHR 0x0C then [CHR 0x5C, CHR ''f'']
      else if c = CHR 0x0A then [CHR 0x5C, CHR ''n'']
      else if c = CHR 0x0D then [CHR 0x5C, CHR ''r'']
      else if c = CHR 0x09 then [CHR 0x5C, CHR ''t'']
      else if (of_char c :: nat) < 32
        then [CHR 0x5C, CHR ''u'', CHR ''0'', CHR ''0'',
              hex_char (of_char c div 16), hex_char (of_char c mod 16)]
      else [c])"

definition quote_string :: "string \<Rightarrow> string" where
  "quote_string s = [CHR 0x22] @ concat (map quote_char s) @ [CHR 0x22]"

fun stringify_value :: "jsval \<Rightarrow> string" where
  "stringify_value JUndefined = ''null''"
| "stringify_value JNull = ''null''"
| "stringify_value (JBool b) = (if b then ''true'' else ''false'')"
| "stringify_value (JNum x) = (case x of Fin r \<Rightarrow> number_to_string x | _ \<Rightarrow> ''null'')"
| "stringify_value (JStr s) = quote_string s"
| "stringify_value (JArr xs) = ''['' @ join '','' (map stringify_value xs) @ '']''"
| "stringify_value (JObj al) =
     ''{'' @ join '',''
              (map (\<lambda>(k, v). quote_string k @ '':'' @ stringify_value v)
                   (filter (\<lambda>(k, v). v \<noteq> JUndefined) al)) @ ''}''"

definition JSON_stringify :: "jsval \<Rightarrow> string option" where
  "JSON_stringify v = (if v = JUndefined then None else Some (stringify_value v))"

text \<open>
  The product explorer's variant:
  \<^verbatim>\<open>const csvEscape = (s: any) => {
    if (s === null || s === undefined) return "";
    const str = typeof s === "string" ? s : JSON.stringify(s);
    if (/[,"\n]/.test(str)) return '"' + str.replace(/"/g, '""') + '"';
    return str;
  };\<close>
\<close>

definition csvEscape :: "jsval \<Rightarrow> string" where
  "csvEscape s =
     (if s = JNull \<or> s = JUndefined then []
      else (let str = (case s of JStr t \<Rightarrow> t | _ \<Rightarrow> stringify_value s)
            in if \<exists>c \<in> set str. c = CHR '','' \<or> c = CHR 0x22 \<or> c = CHR 0x0A
               then [CHR 0x22] @ replaceAll_quote str @ [CHR 0x22]
               else str))"

text \<open>
  Reading an exported text back, by the quoting rule the export follows: a cell that
  starts with a double quote runs to the next double quote that is not doubled, a
  doubled double quote inside it standing for one; any other cell runs to the next comma
  or line feed; a comma ends a cell and a line feed ends a record. The program has no
  reader; this one states what re-parsing the CSV honoring the quoting rule means.
  \<open>csv_parse q cur rec s\<close> is the list of the records of \<open>s\<close>, where \<open>rec\<close> holds the
  cells of the record read so far, \<open>cur\<close> the text of the cell read so far, and \<open>q\<close> tells
  whether the reader is inside a quoted cell.
\<close>

fun csv_parse :: "bool \<Rightarrow> string \<Rightarrow> string list \<Rightarrow> string \<Rightarrow> string list list" where
  "csv_parse q cur rec [] = [rec @ [cur]]"
| "csv_parse True cur rec [c] = (if c = CHR 0x22 then [rec @ [cur]] else [rec @ [cur @ [c]]])"
| "csv_parse True cur rec (c # d # cs) =
     (if c = CHR 0x22 then
        (if d = CHR 0x22 then csv_parse True (cur @ [CHR 0x22]) rec cs
         else if d = CHR '','' then csv_parse False [] (rec @ [cur]) cs
         else if d = CHR 0x0A then (rec @ [cur]) # csv_parse False [] [] cs
         else csv_parse False (cur @ [d]) rec cs)
      else csv_parse True (cur @ [c]) rec (d # cs))"
| "csv_parse False cur rec (c # cs) =
     (if c = CHR '','' then csv_parse False [] (rec @ [cur]) cs
      else if c = CHR 0x0A then (rec @ [cur]) # csv_parse False [] [] cs
      else if c = CHR 0x22 \<and> cur = [] then csv_parse True [] rec cs
      else csv_parse False (cur @ [c]) rec cs)"

text \<open>
  \<open>xs.map(f)\<close> where \<open>f\<close> may throw: the first exception ends the map.
\<close>

fun map_throwing :: "('a \<Rightarrow> error + 'b) \<Rightarrow> 'a list \<Rightarrow> error + 'b list" where
  "map_throwing f [] = Inr []"
| "map_throwing f (x # xs) =
     (case f x of
        Inl e \<Rightarrow> Inl e
      | Inr y \<Rightarrow> (case map_throwing f xs of Inl e \<Rightarrow> Inl e | Inr ys \<Rightarrow> Inr (y # ys)))"

text \<open>
  The text of a record and of a whole export, as \<open>exportCSV\<close> assembles them from the
  cells: \<open>[...].map(toCSV)\<close>, \<open>record.join(",")\<close> and \<open>lines.join("\n")\<close>. A cell that
  throws ends the export.
\<close>

definition csv_line :: "jsval list \<Rightarrow> error + string" where
  "csv_line cells =
     (case map_throwing toCSV cells of Inl e \<Rightarrow> Inl e | Inr cs \<Rightarrow> Inr (join '','' cs))"

definition csv_text :: "jsval list list \<Rightarrow> error + string" where
  "csv_text records =
     (case map_throwing csv_line records of
        Inl e \<Rightarrow> Inl e
      | Inr ls \<Rightarrow> Inr (join [CHR 0x0A] ls))"

text \<open>
  The explorer's export: \<open>rows.map(r => fields.map(f => csvEscape(r[f])).join(",")).join("\n")\<close>,
  here on the values of the cells.
\<close>

definition explorer_text :: "jsval list list \<Rightarrow> string" where
  "explorer_text records =
     join [CHR 0x0A] (map (\<lambda>cells. join '','' (map csvEscape cells)) records)"

text \<open>
  The text of a cell before the escaping, in the two exports, and the escaping as the
  specification words it: every double quote of the text doubled, and the whole wrapped
  in double quotes if the text holds a comma, a line feed or a double quote.
\<close>

definition cell_text :: "jsval \<Rightarrow> error + string" where
  "cell_text val = (if val = JNull \<or> val = JUndefined then Inr [] else to_String val)"

definition explorer_cell_text :: "jsval \<Rightarrow> string" where
  "explorer_cell_text s =
     (if s = JNull \<or> s = JUndefined then []
      else (case s of JStr t \<Rightarrow> t | _ \<Rightarrow> stringify_value s))"

definition escaped_cell :: "string \<Rightarrow> string" where
  "escaped_cell s =
     (if CHR '','' \<in> set s \<or> CHR 0x0A \<in> set s \<or> CHR 0x22 \<in> set s
      then [CHR 0x22] @ concat (map (\<lambda>c. if c = CHR 0x22 then [CHR 0x22, CHR 0x22] else [c]) s)
           @ [CHR 0x22]
      else s)"

section \<open>The price range of the filter (App.jsx, lines 411 to 413)\<close>

text \<open>
  \<^verbatim>\<open>const toNum = (value) =>
    (value === null || value === undefined || value === "" ? NaN : Number(value));
  if (minPrice !== "") rows = rows.filter((row) => toNum(row.variant_price) >= Number(minPrice));
  if (maxPrice !== "") rows = rows.filter((row) => toNum(row.variant_price) <= Number(maxPrice));\<close>

  \<open>minPrice\<close> and \<open>maxPrice\<close> are the texts of the two input fields; the rows are the
  objects that the flattening builds.
\<close>

definition toNum :: "jsval \<Rightarrow> error + jsnumber" where
  "toNum v = (if v = JNull \<or> v = JUndefined \<or> v = JStr [] then Inr NaN else to_Number v)"

text \<open>
  \<open>xs.filter(f)\<close> where \<open>f\<close> may throw: the first exception ends the filter.
\<close>

fun filter_throwing :: "('a \<Rightarrow> error + bool) \<Rightarrow> 'a list \<Rightarrow> error + 'a list" where
  "filter_throwing f [] = Inr []"
| "filter_throwing f (x # xs) =
     (case f x of
        Inl e \<Rightarrow> Inl e
      | Inr b \<Rightarrow> (case filter_throwing f xs of
                    Inl e \<Rightarrow> Inl e
                  | Inr ys \<Rightarrow> Inr (if b then x # ys else ys)))"

definition filter_price :: "string \<Rightarrow> string \<Rightarrow> jsval list \<Rightarrow> error + jsval list" where
  "filter_price minPrice maxPrice rows =
     (case (if minPrice \<noteq> []
            then filter_throwing
                   (\<lambda>row. case toNum (member row ''variant_price'') of
                             Inl e \<Rightarrow> Inl e
                           | Inr x \<Rightarrow> Inr (num_ge x (StringToNumber minPrice))) rows
            else Inr rows) of
        Inl e \<Rightarrow> Inl e
      | Inr rows1 \<Rightarrow>
          (if maxPrice \<noteq> []
           then filter_throwing
                  (\<lambda>row. case toNum (member row ''variant_price'') of
                            Inl e \<Rightarrow> Inl e
                          | Inr x \<Rightarrow> Inr (num_le x (StringToNumber maxPrice))) rows1
           else Inr rows1))"

text \<open>
  The price of a row as the filter reads it, and the rows whose price can be read
  without an exception.
\<close>

definition row_price :: "jsval \<Rightarrow> error + jsnumber" where
  "row_price row = toNum (member row ''variant_price'')"

definition price_readable :: "jsval \<Rightarrow> bool" where
  "price_readable row = (case row_price row of Inl e \<Rightarrow> False | Inr x \<Rightarrow> True)"

definition price_within :: "string \<Rightarrow> string \<Rightarrow> jsval \<Rightarrow> bool" where
  "price_within minPrice maxPrice row =
     (case row_price row of
        Inl e \<Rightarrow> False
      | Inr x \<Rightarrow> (minPrice = [] \<or> num_ge x (StringToNumber minPrice))
               \<and> (maxPrice = [] \<or> num_le x (StringToNumber maxPrice)))"

section \<open>Product summaries (product explorer, lines 73 to 110)\<close>

text \<open>
  \<^verbatim>\<open>const asNumber = (v: any): number | null => {
    if (v === undefined || v === null || v === "") return null;
    const n = typeof v === "number" ? v : Number(String(v).replace(/[^\d.\-]/g, ""));
    return Number.isFinite(n) ? n : null;
  };\<close>
  A finite number is returned as the rational it is; \<open>String(v)\<close> may throw.
\<close>

definition strip_non_numeric :: "string \<Rightarrow> string" where
  "strip_non_numeric s = filter (\<lambda>c. is_digit c \<or> c = CHR ''.'' \<or> c = CHR ''-'') s"

definition finite_or_null :: "jsnumber \<Rightarrow> rat option" where
  "finite_or_null n = (case n of Fin r \<Rightarrow> Some r | _ \<Rightarrow> None)"

definition asNumber :: "jsval \<Rightarrow> error + rat option" where
  "asNumber v =
     (if v = JUndefined \<or> v = JNull \<or> v = JStr [] then Inr None
      else (case v of
              JNum x \<Rightarrow> Inr (finite_or_null x)
            | _ \<Rightarrow> (case to_String v of
                      Inl e \<Rightarrow> Inl e
                    | Inr s \<Rightarrow> Inr (finite_or_null (StringToNumber (strip_non_numeric s))))))"

text \<open>
  The coercion as the specification words it: strip all characters except digits, a
  single leading minus sign, and decimal points, then parse; the result is valid only if
  it is a finite number.
\<close>

definition strip_non_numeric_spec :: "string \<Rightarrow> string" where
  "strip_non_numeric_spec s =
     (if take 1 s = ''-''
      then CHR ''-'' # filter (\<lambda>c. is_digit c \<or> c = CHR ''.'') (drop 1 s)
      else filter (\<lambda>c. is_digit c \<or> c = CHR ''.'') s)"

definition asNumber_spec :: "jsval \<Rightarrow> error + rat option" where
  "asNumber_spec v =
     (if v = JUndefined \<or> v = JNull \<or> v = JStr [] then Inr None
      else (case v of
              JNum x \<Rightarrow> Inr (finite_or_null x)
            | _ \<Rightarrow> (case to_String v of
                      Inl e \<Rightarrow> Inl e
                    | Inr s \<Rightarrow> Inr (finite_or_null (StringToNumber (strip_non_numeric_spec s))))))"

datatype source = Trigger | Upsell | Raw

record ProductRow =
  source :: source
  product_id :: jsval
  product_title :: jsval
  product_description :: jsval
  product_handle :: jsval
  product_vendor :: jsval
  product_tags :: jsval
  product_collections :: jsval
  product_url :: jsval
  product_image :: jsval
  product_variants :: "jsval list"
  price_min :: "rat option"
  price_max :: "rat option"
  inventory_total :: "jsnumber option"
  available :: "bool option"

text \<open>
  \<open>Math.min(...xs)\<close> and \<open>Math.max(...xs)\<close> are only called on a list that is not empty
  (\<open>prices.length ? ... : null\<close>), where they are the least and the greatest element.
\<close>

definition Math_min :: "rat list \<Rightarrow> rat" where
  "Math_min xs = foldl min (hd xs) (tl xs)"

definition Math_max :: "rat list \<Rightarrow> rat" where
  "Math_max xs = foldl max (hd xs) (tl xs)"

text \<open>
  \<^verbatim>\<open>const deriveProductRow = (p: any, source: ProductRow["source"]): ProductRow => {
    const variants: Variant[] = Array.isArray(p.product_variants) ? p.product_variants : [];
    const prices = variants.map(v => asNumber(v.variant_price)).filter((v): v is number => v !== null);
    const inv = variants.map(v => asNumber(v.inventory_quantity)).filter((v): v is number => v !== null);
    const price_min = prices.length ? Math.min(...prices) : null;
    const price_max = prices.length ? Math.max(...prices) : null;
    const inventory_total = inv.length ? inv.reduce((a, b) => a + b, 0) : null;
    const available = variants.length ? variants.some(v => Boolean(v.variant_available)) : null;
    return { source, product_id: p.product_id, ..., product_variants: variants,
             price_min, price_max, inventory_total, available };
  };\<close>
  The absent value \<open>null\<close> of the four derived fields is \<open>None\<close>. The addition \<open>a + b\<close>
  of two numbers is the platform's: it rounds the sum to the nearest double and
  overflows to an infinity, so it is the parameter \<open>add_numbers\<close> of the model, and
  \<open>reduce\<close> folds it over the quantities from the left, starting from 0.
\<close>

definition deriveProductRow ::
  "(jsnumber \<Rightarrow> jsnumber \<Rightarrow> jsnumber) \<Rightarrow> jsval \<Rightarrow> source \<Rightarrow> error + ProductRow" where
  "deriveProductRow add_numbers p src =
     (case get_prop p ''product_variants'' of
        Inl e \<Rightarrow> Inl e
      | Inr pv \<Rightarrow>
         (let variants = (case pv of JArr vs \<Rightarrow> vs | _ \<Rightarrow> []) in
          case map_throwing (\<lambda>v. case get_prop v ''variant_price'' of
                                     Inl e \<Rightarrow> Inl e | Inr x \<Rightarrow> asNumber x) variants of
            Inl e \<Rightarrow> Inl e
          | Inr ps \<Rightarrow>
             (case map_throwing (\<lambda>v. case get_prop v ''inventory_quantity'' of
                                        Inl e \<Rightarrow> Inl e | Inr x \<Rightarrow> asNumber x) variants of
                Inl e \<Rightarrow> Inl e
              | Inr qs \<Rightarrow>
                 (let prices = concat (map (\<lambda>x. case x of None \<Rightarrow> [] | Some r \<Rightarrow> [r]) ps);
                      inv = concat (map (\<lambda>x. case x of None \<Rightarrow> [] | Some r \<Rightarrow> [r]) qs)
                  in Inr \<lparr> source = src,
                           product_id = member p ''product_id'',
                           product_title = member p ''product_title'',
                           product_description = member p ''product_description'',
                           product_handle = member p ''product_handle'',
                           product_vendor = member p ''product_vendor'',
                           product_tags = member p ''product_tags'',
                           product_collections = member p ''product_collections'',
                           product_url = member p ''product_url'',
                           product_image = member p ''product_image'',
                           product_variants = variants,
                           price_min = (if prices \<noteq> [] then Some (Math_min prices) else None),
                           price_max = (if prices \<noteq> [] then Some (Math_max prices) else None),
                           inventory_total =
                             (if inv \<noteq> [] then Some (foldl add_numbers (Fin 0) (map Fin inv))
                              else None),
                           available =
                             (if variants \<noteq> []
                              then Some (list_ex (\<lambda>v. to_Boolean (member v ''variant_available''))
                                                 variants)
                              else None) \<rparr>))))"

text \<open>
  The sum of two numbers as the reals have it. The platform's addition agrees with it
  wherever that sum is a double, as on the whole numbers below \<open>2\<^sup>5\<^sup>3\<close>.
\<close>

fun exact_plus :: "jsnumber \<Rightarrow> jsnumber \<Rightarrow> jsnumber" where
  "exact_plus (Fin a) (Fin b) = Fin (a + b)"
| "exact_plus NaN y = NaN"
| "exact_plus x NaN = NaN"
| "exact_plus PosInfinity NegInfinity = NaN"
| "exact_plus NegInfinity PosInfinity = NaN"
| "exact_plus PosInfinity y = PosInfinity"
| "exact_plus NegInfinity y = NegInfinity"
| "exact_plus x PosInfinity = PosInfinity"
| "exact_plus x NegInfinity = NegInfinity"

section \<open>Flattening the trigger sets into variant rows (App.jsx, lines 316 to 344)\<close>

text \<open>
  \<open>xs.forEach(f)\<close> where \<open>f\<close> pushes onto \<open>rows\<close> and may throw: the rows are passed
  along, and the first exception ends the loop.
\<close>

fun forEach :: "('s \<Rightarrow> 'a \<Rightarrow> error + 's) \<Rightarrow> 's \<Rightarrow> 'a list \<Rightarrow> error + 's" where
  "forEach f s [] = Inr s"
| "forEach f s (x # xs) = (case f s x of Inl e \<Rightarrow> Inl e | Inr s' \<Rightarrow> forEach f s' xs)"

text \<open>
  The receiver of \<open>(arr || []).forEach\<close>: a falsy \<open>arr\<close> gives the empty array; an
  array is itself; any other truthy value has no \<open>forEach\<close> method, and calling it
  throws a \<open>TypeError\<close>.
\<close>

definition array_or_empty :: "jsval \<Rightarrow> error + jsval list" where
  "array_or_empty arr =
     (if to_Boolean arr then (case arr of JArr xs \<Rightarrow> Inr xs | _ \<Rightarrow> Inl TypeError)
      else Inr [])"

text \<open>
  The own enumerable entries that \<open>...variant\<close> copies: the entries of an object, the
  indexed elements of an array, the indexed characters of a string, nothing for the
  other values. An entry whose key is already there replaces the value and keeps the
  place.
\<close>

definition own_entries :: "jsval \<Rightarrow> (string \<times> jsval) list" where
  "own_entries v =
     (case v of
        JObj al \<Rightarrow> al
      | JArr xs \<Rightarrow> zip (map nat_digits [0 ..< length xs]) xs
      | JStr s \<Rightarrow> zip (map nat_digits [0 ..< length s]) (map (\<lambda>c. JStr [c]) s)
      | _ \<Rightarrow> [])"

definition spread :: "(string \<times> jsval) list \<Rightarrow> jsval \<Rightarrow> (string \<times> jsval) list" where
  "spread base v = foldl (\<lambda>acc (k, x). AList.update k x acc) base (own_entries v)"

text \<open>
  \<^verbatim>\<open>rows.push({
    set_index: idx,
    trigger_type: type,
    product_id: product.product_id,
    product_title: product.product_title,
    product_vendor: product.product_vendor,
    product_url: product.product_url,
    product_handle: product.product_handle,
    product_image: product.product_image,
    product_collections: product.product_collections || [],
    product_tags: product.product_tags || [],
    product_description: product.product_description || "",
    ...variant,
  });\<close>
  The product is not \<open>null\<close> or \<open>undefined\<close> here: \<open>product.product_variants\<close> has been
  read before. \<open>context_fields\<close> are the entries written before the spread.
\<close>

definition context_fields :: "nat \<Rightarrow> string \<Rightarrow> jsval \<Rightarrow> (string \<times> jsval) list" where
  "context_fields idx type product =
     [(''set_index'', JNum (Fin (of_nat idx))),
      (''trigger_type'', JStr type),
      (''product_id'', member product ''product_id''),
      (''product_title'', member product ''product_title''),
      (''product_vendor'', member product ''product_vendor''),
      (''product_url'', member product ''product_url''),
      (''product_handle'', member product ''product_handle''),
      (''product_image'', member product ''product_image''),
      (''product_collections'', or_else (member product ''product_collections'') (JArr [])),
      (''product_tags'', or_else (member product ''product_tags'') (JArr [])),
      (''product_description'', or_else (member product ''product_description'') (JStr []))]"

definition variant_row :: "nat \<Rightarrow> string \<Rightarrow> jsval \<Rightarrow> jsval \<Rightarrow> jsval" where
  "variant_row idx type product variant =
     JObj (spread (context_fields idx type product) variant)"

text \<open>
  \<^verbatim>\<open>const add = (arr, type) => {
    (arr || []).forEach((product) => {
      (product.product_variants || []).forEach((variant) => { rows.push({ ... }); });
    });
  };\<close>
\<close>

definition add_product :: "nat \<Rightarrow> string \<Rightarrow> jsval list \<Rightarrow> jsval \<Rightarrow> error + jsval list" where
  "add_product idx type rows product =
     (case get_prop product ''product_variants'' of
        Inl e \<Rightarrow> Inl e
      | Inr pv \<Rightarrow>
         (case array_or_empty pv of
            Inl e \<Rightarrow> Inl e
          | Inr variants \<Rightarrow>
              forEach (\<lambda>rows variant. Inr (rows @ [variant_row idx type product variant]))
                      rows variants))"

definition add :: "nat \<Rightarrow> jsval list \<Rightarrow> jsval \<Rightarrow> string \<Rightarrow> error + jsval list" where
  "add idx rows arr type =
     (case array_or_empty arr of
        Inl e \<Rightarrow> Inl e
      | Inr products \<Rightarrow> forEach (add_product idx type) rows products)"

text \<open>
  \<^verbatim>\<open>sets.forEach((setObj, idx) => {
    ...
    add(setObj?.triggerProduct?.selectedTriggerProducts, "product");
    add(setObj?.triggerUpsell?.selectedUpsellProducts, "upsell");
  });
  return rows;\<close>
\<close>

definition add_set :: "jsval list \<Rightarrow> nat \<times> jsval \<Rightarrow> error + jsval list" where
  "add_set rows p =
     (case p of (idx, setObj) \<Rightarrow>
        (case add idx rows
                (opt_prop (opt_prop setObj ''triggerProduct'') ''selectedTriggerProducts'')
                ''product'' of
           Inl e \<Rightarrow> Inl e
         | Inr rows' \<Rightarrow>
             add idx rows'
                 (opt_prop (opt_prop setObj ''triggerUpsell'') ''selectedUpsellProducts'')
                 ''upsell''))"

definition flatVariants :: "jsval list \<Rightarrow> error + jsval list" where
  "flatVariants sets = forEach add_set [] (enumerate 0 sets)"

text \<open>
  The terms in which the specification counts the rows: the products of the two blocks
  of a trigger set, the variants of a product, and the rows that one trigger set at
  position \<open>idx\<close> should give, the trigger role first. A block or a variant list that is
  absent counts as empty.
\<close>

definition product_list :: "jsval \<Rightarrow> jsval list" where
  "product_list arr = (case arr of JArr ps \<Rightarrow> ps | _ \<Rightarrow> [])"

definition variant_list :: "jsval \<Rightarrow> jsval list" where
  "variant_list product = product_list (member product ''product_variants'')"

definition trigger_products :: "jsval \<Rightarrow> jsval list" where
  "trigger_products setObj =
     product_list (opt_prop (opt_prop setObj ''triggerProduct'') ''selectedTriggerProducts'')"

definition upsell_products :: "jsval \<Rightarrow> jsval list" where
  "upsell_products setObj =
     product_list (opt_prop (opt_prop setObj ''triggerUpsell'') ''selectedUpsellProducts'')"

definition role_rows :: "nat \<Rightarrow> string \<Rightarrow> jsval list \<Rightarrow> jsval list" where
  "role_rows idx type products =
     concat (map (\<lambda>product. map (variant_row idx type product) (variant_list product)) products)"

definition set_rows :: "nat \<Rightarrow> jsval \<Rightarrow> jsval list" where
  "set_rows idx setObj =
     role_rows idx ''product'' (trigger_products setObj)
     @ role_rows idx ''upsell'' (upsell_products setObj)"

text \<open>
  The shape of a trigger set that the specification's data model describes: each of the
  two product lists is an array or absent (any falsy value), no product is \<open>null\<close>, and
  the variant list of each product is an array or absent. \<open>has_own_key v k\<close> says that the
  value \<open>v\<close> has an own entry for the key \<open>k\<close>.
\<close>

definition list_shaped :: "jsval \<Rightarrow> bool" where
  "list_shaped v = (case v of JArr xs \<Rightarrow> True | _ \<Rightarrow> \<not> to_Boolean v)"

definition product_shaped :: "jsval \<Rightarrow> bool" where
  "product_shaped p =
     (p \<noteq> JNull \<and> p \<noteq> JUndefined \<and> list_shaped (member p ''product_variants''))"

definition set_shaped :: "jsval \<Rightarrow> bool" where
  "set_shaped setObj =
     (list_shaped (opt_prop (opt_prop setObj ''triggerProduct'') ''selectedTriggerProducts'')
      \<and> list_shaped (opt_prop (opt_prop setObj ''triggerUpsell'') ''selectedUpsellProducts'')
      \<and> list_all product_shaped (trigger_products setObj)
      \<and> list_all product_shaped (upsell_products setObj))"

definition has_own_key :: "jsval \<Rightarrow> string \<Rightarrow> bool" where
  "has_own_key v k = (k \<in> set (map fst (own_entries v)))"

definition set_variants :: "jsval \<Rightarrow> jsval list" where
  "set_variants setObj =
     concat (map variant_list (trigger_products setObj))
     @ concat (map variant_list (upsell_products setObj))"

text \<open>
  The values of a field over the variants of a product that coerce to a finite number,
  in the order of the variants, and the variants on which the coercion of the field
  does not throw: the terms in which the specification states the derived fields.
\<close>

definition coerced :: "string \<Rightarrow> jsval \<Rightarrow> rat list" where
  "coerced field product =
     concat (map (\<lambda>v. case asNumber (member v field) of
                         Inl e \<Rightarrow> []
                       | Inr None \<Rightarrow> []
                       | Inr (Some r) \<Rightarrow> [r]) (variant_list product))"

definition coercible :: "string \<Rightarrow> jsval \<Rightarrow> bool" where
  "coercible field v = (case asNumber (member v field) of Inl e \<Rightarrow> False | Inr x \<Rightarrow> True)"

section \<open>\<open>JSON.parse\<close>\<close>

text \<open>
  The platform's parser, by the grammar of the language (ECMA-404): white space is the
  space, TAB, LF and CR; a value is an object, an array, a string, a number or one of
  \<open>true\<close>, \<open>false\<close>, \<open>null\<close>. A \<open>\u\<close> escape names a code unit by four hexadecimal
  digits; one above \<open>00FF\<close> is outside the alphabet of the model, which then rejects the
  text. When a key occurs twice in an object, the later value replaces the earlier one.
\<close>

definition is_json_ws :: "char \<Rightarrow> bool" where
  "is_json_ws c = (c \<in> set [CHR 0x20, CHR 0x09, CHR 0x0A, CHR 0x0D])"

definition skip_ws :: "string \<Rightarrow> string" where
  "skip_ws s = dropWhile is_json_ws s"

definition simple_escape :: "char \<Rightarrow> char option" where
  "simple_escape e =
     (if e = CHR 0x22 then Some (CHR 0x22)
      else if e = CHR 0x5C then Some (CHR 0x5C)
      else if e = CHR ''/'' then Some (CHR ''/'')
      else if e = CHR ''b'' then Some (CHR 0x08)
      else if e = CHR ''f'' then Some (CHR 0x0C)
      else if e = CHR ''n'' then Some (CHR 0x0A)
      else if e = CHR ''r'' then Some (CHR 0x0D)
      else if e = CHR ''t'' then Some (CHR 0x09)
      else None)"

definition hex4 :: "char \<Rightarrow> char \<Rightarrow> char \<Rightarrow> char \<Rightarrow> char option" where
  "hex4 a b c d =
     (case (radix_digit a, radix_digit b, radix_digit c, radix_digit d) of
        (Some x, Some y, Some z, Some w) \<Rightarrow>
          (if x = 0 \<and> y = 0 then Some (char_of (16 * z + w)) else None)
      | _ \<Rightarrow> None)"

text \<open>
  The characters of a string, after the opening double quote and up to the closing one;
  the result is the string and the rest of the text.
\<close>

fun parse_chars :: "string \<Rightarrow> (string \<times> string) option" where
  "parse_chars [] = None"
| "parse_chars (c # cs) =
     (if c = CHR 0x22 then Some ([], cs)
      else if c = CHR 0x5C then
        (case cs of
           [] \<Rightarrow> None
         | e # cs' \<Rightarrow>
             if e = CHR ''u'' then
               (case cs' of
                  h1 # h2 # h3 # h4 # cs'' \<Rightarrow>
                    (case hex4 h1 h2 h3 h4 of
                       None \<Rightarrow> None
                     | Some x \<Rightarrow>
                         (case parse_chars cs'' of
                            None \<Rightarrow> None
                          | Some (s, r) \<Rightarrow> Some (x # s, r)))
                | _ \<Rightarrow> None)
             else
               (case simple_escape e of
                  None \<Rightarrow> None
                | Some x \<Rightarrow>
                    (case parse_chars cs' of
                       None \<Rightarrow> None
                     | Some (s, r) \<Rightarrow> Some (x # s, r))))
      else if (of_char c :: nat) < 32 then None
      else (case parse_chars cs of
              None \<Rightarrow> None
            | Some (s, r) \<Rightarrow> Some (c # s, r)))"

text \<open>
  A number: an optional minus sign, an integer part without a leading zero (unless it is
  the single digit 0), an optional fraction with at least one digit, an optional exponent
  with at least one digit.
\<close>

definition parse_number :: "string \<Rightarrow> (jsnumber \<times> string) option" where
  "parse_number s =
     (let neg = (take 1 s = ''-'');
          s1 = (if neg then drop 1 s else s);
          ip = takeWhile is_digit s1;
          r1 = dropWhile is_digit s1;
          dot = (take 1 r1 = ''.'');
          fp = (if dot then takeWhile is_digit (drop 1 r1) else []);
          r2 = (if dot then dropWhile is_digit (drop 1 r1) else r1);
          ex = (take 1 r2 = ''e'' \<or> take 1 r2 = ''E'');
          r3 = (if ex then drop 1 r2 else r2);
          eneg = (ex \<and> take 1 r3 = ''-'');
          r4 = (if ex \<and> (take 1 r3 = ''+'' \<or> take 1 r3 = ''-'') then drop 1 r3 else r3);
          ed = (if ex then takeWhile is_digit r4 else []);
          r5 = (if ex then dropWhile is_digit r4 else r4);
          e = (if eneg then - int (digits_val ed) else int (digits_val ed));
          m = of_nat (digits_val ip) + of_nat (digits_val fp) / 10 ^ length fp
      in if ip = [] \<or> (1 < length ip \<and> take 1 ip = ''0'') \<or> (dot \<and> fp = []) \<or> (ex \<and> ed = [])
         then None
         else Some (Fin (scale10 (if neg then - m else m) e), r5))"

text \<open>
  A value that is neither an object nor an array, by its first character \<open>c\<close>: a
  string, a number, or one of the three literal names.
\<close>

definition parse_scalar :: "char \<Rightarrow> string \<Rightarrow> (jsval \<times> string) option" where
  "parse_scalar c cs =
     (if c = CHR 0x22 then
        (case parse_chars cs of None \<Rightarrow> None | Some (x, r) \<Rightarrow> Some (JStr x, r))
      else if c = CHR ''-'' \<or> is_digit c then
        (case parse_number (c # cs) of None \<Rightarrow> None | Some (x, r) \<Rightarrow> Some (JNum x, r))
      else if take 4 (c # cs) = ''true'' then Some (JBool True, drop 4 (c # cs))
      else if take 5 (c # cs) = ''false'' then Some (JBool False, drop 5 (c # cs))
      else if take 4 (c # cs) = ''null'' then Some (JNull, drop 4 (c # cs))
      else None)"

text \<open>
  After an opening bracket: the closing bracket at once, for the empty array or object,
  or the items read by \<open>items\<close>.
\<close>

definition close_or ::
  "char \<Rightarrow> (string \<Rightarrow> ('a list \<times> string) option) \<Rightarrow> string \<Rightarrow> ('a list \<times> string) option" where
  "close_or closer items cs =
     (case skip_ws cs of
        [] \<Rightarrow> None
      | d # ds \<Rightarrow> if d = closer then Some ([], ds) else items (d # ds))"

text \<open>
  After an item \<open>x\<close>: a comma and the further items read by \<open>items\<close>, or the closing
  bracket.
\<close>

definition next_item ::
  "char \<Rightarrow> 'a \<Rightarrow> (string \<Rightarrow> ('a list \<times> string) option) \<Rightarrow> string \<Rightarrow> ('a list \<times> string) option" where
  "next_item closer x items r =
     (case skip_ws r of
        [] \<Rightarrow> None
      | c # cs \<Rightarrow>
          if c = CHR '','' then
            (case items cs of None \<Rightarrow> None | Some (xs, r') \<Rightarrow> Some (x # xs, r'))
          else if c = closer then Some ([x], cs)
          else None)"

text \<open>The key of a member and the colon after it.\<close>

definition member_key :: "string \<Rightarrow> (string \<times> string) option" where
  "member_key s =
     (case skip_ws s of
        [] \<Rightarrow> None
      | q # cs \<Rightarrow>
          if q = CHR 0x22 then
            (case parse_chars cs of
               None \<Rightarrow> None
             | Some (k, r1) \<Rightarrow>
                 (case skip_ws r1 of
                    [] \<Rightarrow> None
                  | c # r2 \<Rightarrow> if c = CHR '':'' then Some (k, r2) else None))
          else None)"

text \<open>The object of a list of members: a later member replaces an earlier one of its key.\<close>

definition object_of :: "(string \<times> jsval) list \<Rightarrow> jsval" where
  "object_of kvs = JObj (foldl (\<lambda>acc (k, v). AList.update k v acc) [] kvs)"

text \<open>
  The recursive descent. The first argument bounds the depth of the recursion; it is
  spent by one at each call, and \<open>JSON_parse\<close> starts with more than any text can use.
  \<open>parse_elems\<close> reads the elements of an array after the opening bracket, and
  \<open>parse_members\<close> the members of an object after the opening brace, each up to and
  including the closing one.
\<close>

fun parse_value :: "nat \<Rightarrow> string \<Rightarrow> (jsval \<times> string) option"
  and parse_elems :: "nat \<Rightarrow> string \<Rightarrow> (jsval list \<times> string) option"
  and parse_members :: "nat \<Rightarrow> string \<Rightarrow> ((string \<times> jsval) list \<times> string) option"
where
  "parse_value 0 s = None"
| "parse_value (Suc n) s =
     (case skip_ws s of
        [] \<Rightarrow> None
      | c # cs \<Rightarrow>
          if c = CHR ''{'' then
            (case close_or (CHR ''}'') (parse_members n) cs of
               None \<Rightarrow> None
             | Some (kvs, r) \<Rightarrow> Some (object_of kvs, r))
          else if c = CHR ''['' then
            (case close_or (CHR '']'') (parse_elems n) cs of
               None \<Rightarrow> None
             | Some (vs, r) \<Rightarrow> Some (JArr vs, r))
          else parse_scalar c cs)"
| "parse_elems 0 s = None"
| "parse_elems (Suc n) s =
     (case parse_value n s of
        None \<Rightarrow> None
      | Some (v, r) \<Rightarrow> next_item (CHR '']'') v (parse_elems n) r)"
| "parse_members 0 s = None"
| "parse_members (Suc n) s =
     (case member_key s of
        None \<Rightarrow> None
      | Some (k, r2) \<Rightarrow>
          (case parse_value n r2 of
             None \<Rightarrow> None
           | Some (v, r3) \<Rightarrow> next_item (CHR ''}'') (k, v) (parse_members n) r3))"

definition JSON_parse :: "string \<Rightarrow> error + jsval" where
  "JSON_parse s =
     (case parse_value (2 * length s + 2) s of
        None \<Rightarrow> Inl SyntaxError
      | Some (v, r) \<Rightarrow> if skip_ws r = [] then Inr v else Inl SyntaxError)"

section \<open>Parsing one or many JSON values (App.jsx, lines 39 to 78)\<close>

text \<open>
  \<open>txt.split(/\n+/)\<close>: the pieces of the text between the runs of line feeds; a run at
  the start or at the end leaves an empty piece there. \<open>split_nl sep cur s\<close> reads \<open>s\<close>
  with the piece \<open>cur\<close> read so far, \<open>sep\<close> telling whether the last character was a line
  feed.
\<close>

fun split_nl :: "bool \<Rightarrow> string \<Rightarrow> string \<Rightarrow> string list" where
  "split_nl sep cur [] = [cur]"
| "split_nl sep cur (c # cs) =
     (if c = CHR 0x0A then (if sep then split_nl True cur cs else cur # split_nl True [] cs)
      else split_nl False (cur @ [c]) cs)"

definition split_newlines :: "string \<Rightarrow> string list" where
  "split_newlines txt = split_nl False [] txt"

text \<open>
  \<^verbatim>\<open>const lines = txt.split(/\n+/).map((line) => line.trim()).filter(Boolean);\<close>
\<close>

definition lines_of :: "string \<Rightarrow> string list" where
  "lines_of txt = filter (\<lambda>line. line \<noteq> []) (map trim (split_newlines txt))"

text \<open>
  \<^verbatim>\<open>const open = (buffer.match(/[\{\[]/g) || []).length;
  const close = (buffer.match(/[\}\]]/g) || []).length;\<close>
\<close>

definition count_open :: "string \<Rightarrow> nat" where
  "count_open buffer = length (filter (\<lambda>c. c = CHR ''{'' \<or> c = CHR ''['') buffer)"

definition count_close :: "string \<Rightarrow> nat" where
  "count_close buffer = length (filter (\<lambda>c. c = CHR ''}'' \<or> c = CHR '']'') buffer)"

text \<open>
  The state of the loop is the pair of \<open>out\<close> and \<open>buffer\<close>.
  \<^verbatim>\<open>const flush = () => {
    const snippet = buffer.trim();
    if (!snippet) return;
    try {
      const parsed = JSON.parse(snippet);
      out.push(parsed);
    } catch (err) {
      // Ignore invalid chunk and continue reading.
    }
    buffer = "";
  };\<close>
\<close>

definition flush :: "jsval list \<times> string \<Rightarrow> jsval list \<times> string" where
  "flush st =
     (case st of (out, buffer) \<Rightarrow>
        (let snippet = trim buffer in
         if snippet = [] then (out, buffer)
         else (case JSON_parse snippet of
                 Inr parsed \<Rightarrow> (out @ [parsed], [])
               | Inl err \<Rightarrow> (out, []))))"

text \<open>
  \<^verbatim>\<open>for (const line of lines) {
    buffer += (buffer ? "\n" : "") + line;
    const open = ...; const close = ...;
    if (open > 0 && open === close) flush();
  }\<close>
\<close>

definition read_line :: "jsval list \<times> string \<Rightarrow> string \<Rightarrow> jsval list \<times> string" where
  "read_line st line =
     (case st of (out, buffer) \<Rightarrow>
        (let buffer' = buffer @ (if buffer \<noteq> [] then [CHR 0x0A] else []) @ line;
             opn = count_open buffer';
             cls = count_close buffer'
         in if 0 < opn \<and> opn = cls then flush (out, buffer') else (out, buffer')))"

text \<open>
  \<^verbatim>\<open>function parsePossiblyMany(raw) {
    if (!raw || !raw.trim()) return [];
    const txt = raw.trim();
    try {
      const obj = JSON.parse(txt);
      if (Array.isArray(obj)) return obj;
      return [obj];
    } catch (err) {
      // Fall through to NDJSON parsing.
    }
    ...
    flush();
    return out;
  }\<close>
  Both calls of \<open>JSON.parse\<close> stand in a \<open>try\<close> whose \<open>catch\<close> goes on, and nothing else in
  the function can throw on a string, so the result is always a list.
\<close>

definition parsePossiblyMany :: "string \<Rightarrow> jsval list" where
  "parsePossiblyMany raw =
     (if raw = [] \<or> trim raw = [] then []
      else (let txt = trim raw in
            case JSON_parse txt of
              Inr obj \<Rightarrow> (case obj of JArr xs \<Rightarrow> xs | _ \<Rightarrow> [obj])
            | Inl err \<Rightarrow> fst (flush (foldl read_line ([], []) (lines_of txt)))))"

section \<open>Loading trigger sets into the application state (App.jsx, lines 273 to 303)\<close>

text \<open>The built-in example, \<open>tinyExample\<close>: one trigger set.\<close>

definition tinyExample :: "jsval list" where
  "tinyExample =
     [JObj
       [(''triggerProduct'', JObj
          [(''type'', JStr ''products''),
           (''selectedTriggerProducts'', JArr
              [JObj
                [(''product_id'', JStr ''123''),
                 (''product_title'', JStr ''Sample Product''),
                 (''product_description'', JStr ''Short description''),
                 (''product_handle'', JStr ''sample-product''),
                 (''product_image'', JStr ''https://via.placeholder.com/400x300.png?text=Image''),
                 (''product_vendor'', JStr ''Vendor''),
                 (''product_collections'', JArr
                    [JObj [(''id'', JStr ''gid://shopify/Collection/1''),
                           (''title'', JStr ''Collection A'')],
                     JObj [(''id'', JStr ''gid://shopify/Collection/2''),
                           (''title'', JStr ''Collection B'')]]),
                 (''product_tags'', JArr [JStr ''tag-one'', JStr ''tag-two'']),
                 (''product_url'', JStr ''https://example.com/products/sample-product''),
                 (''product_variants'', JArr
                    [JObj [(''variant_id'', JStr ''v1''),
                           (''variant_title'', JStr ''Small''),
                           (''variant_available'', JBool True),
                           (''variant_price'', JStr ''19.99''),
                           (''inventory_quantity'', JNum (Fin 12))],
                     JObj [(''variant_id'', JStr ''v2''),
                           (''variant_title'', JStr ''Large''),
                           (''variant_available'', JBool False),
                           (''variant_price'', JStr ''24.99''),
                           (''inventory_quantity'', JNum (Fin 0))]])]])]),
        (''triggerUpsell'', JObj
          [(''type'', JStr ''products''),
           (''selectedUpsellProducts'', JArr
              [JObj
                [(''product_id'', JStr ''u1''),
                 (''product_title'', JStr ''Upsell Sample''),
                 (''product_variants'', JArr
                    [JObj [(''variant_id'', JStr ''uv1''),
                           (''variant_title'', JStr ''One Size''),
                           (''variant_available'', JBool True),
                           (''variant_price'', JStr ''9.99''),
                           (''inventory_quantity'', JNum (Fin 100))]])]])])]]"

text \<open>
  The part of the component's state that the two loading actions read and write: the
  text of the input area, the loaded trigger sets and the error message.
\<close>

record app_state =
  raw :: string
  sets :: "jsval list"
  error :: string

text \<open>
  \<^verbatim>\<open>const handleParse = () => {
    setError("");
    try {
      const chunks = raw.trim() ? parsePossiblyMany(raw) : tinyExample;
      if (!chunks.length) {
        throw new Error("Could not parse any JSON objects.");
      }
      setSets(chunks);
    } catch (err) {
      const message = err && typeof err === "object" && "message" in err ? err.message : String(err);
      setError(message);
    }
  };\<close>
  The body of the \<open>try\<close> either throws the \<open>Error\<close> with its message or ends with the
  chunks to store.
\<close>

definition handleParse :: "app_state \<Rightarrow> app_state" where
  "handleParse st =
     (let st1 = st\<lparr>error := []\<rparr>;
          chunks = (if trim (raw st) \<noteq> [] then parsePossiblyMany (raw st) else tinyExample);
          body = (if chunks = [] then Inl ''Could not parse any JSON objects.'' else Inr chunks)
      in case body of
           Inr cs \<Rightarrow> st1\<lparr>sets := cs\<rparr>
         | Inl message \<Rightarrow> st1\<lparr>error := message\<rparr>)"

text \<open>
  \<^verbatim>\<open>const onFiles = async (files) => {
    if (!files) return;
    setError("");
    const texts = await Promise.all(Array.from(files).map((file) => file.text()));
    const parsedChunks = texts.flatMap((text) => parsePossiblyMany(text));
    if (!parsedChunks.length) {
      setError("No valid JSON objects found in selected files.");
      return;
    }
    setSets((prev) => [...prev, ...parsedChunks]);
  };\<close>
  The files are given by their texts, \<open>None\<close> standing for an absent file list; the
  action is taken as one step on the state.
\<close>

definition onFiles :: "string list option \<Rightarrow> app_state \<Rightarrow> app_state" where
  "onFiles files st =
     (case files of
        None \<Rightarrow> st
      | Some texts \<Rightarrow>
          (let st1 = st\<lparr>error := []\<rparr>;
               parsedChunks = concat (map parsePossiblyMany texts)
           in if parsedChunks = []
              then st1\<lparr>error := ''No valid JSON objects found in selected files.''\<rparr>
              else st1\<lparr>sets := sets st1 @ parsedChunks\<rparr>))"

section \<open>Pagination of the filtered rows (App.jsx, lines 314 and 438 to 440)\<close>

text \<open>
  The component keeps the requested page in the state variable \<open>page\<close> (a JS number,
  here an \<open>int\<close>), initialised by \<open>useState(1)\<close>. At every render it computes

  \<^verbatim>\<open>const pageSize = 15;
  const totalPages = Math.max(1, Math.ceil(filtered.length / pageSize));
  const currentPage = Math.min(page, totalPages);
  const pageRows = filtered.slice((currentPage - 1) * pageSize, currentPage * pageSize);\<close>

  \<open>filtered.length / pageSize\<close> is a division of numbers, not of integers, so the
  quotient is taken in the rationals and rounded up.
\<close>

definition pageSize :: int where
  "pageSize = 15"

definition totalPages :: "'a list \<Rightarrow> int" where
  "totalPages filtered = max 1 \<lceil>(of_nat (length filtered) :: rat) / of_int pageSize\<rceil>"

definition currentPage :: "int \<Rightarrow> 'a list \<Rightarrow> int" where
  "currentPage page filtered = min page (totalPages filtered)"

text \<open>
  \<open>Array.prototype.slice(start, end)\<close> on integer arguments: a negative index counts
  from the end of the array, and both indices are clamped to \<open>[0, length]\<close>.
\<close>

definition slice_index :: "nat \<Rightarrow> int \<Rightarrow> nat" where
  "slice_index len i = (if i < 0 then nat (max (int len + i) 0) else min (nat i) len)"

definition slice :: "'a list \<Rightarrow> int \<Rightarrow> int \<Rightarrow> 'a list" where
  "slice xs start fin =
     (let k = slice_index (length xs) start; e = slice_index (length xs) fin
      in take (e - k) (drop k xs))"

definition pageRows :: "int \<Rightarrow> 'a list \<Rightarrow> 'a list" where
  "pageRows page filtered =
     slice filtered ((currentPage page filtered - 1) * pageSize)
                    (currentPage page filtered * pageSize)"

text \<open>
  The only writes to \<open>page\<close> in the component: the Prev button
  (\<open>setPage((value) => Math.max(1, value - 1))\<close>), the Next button
  (\<open>setPage((value) => Math.min(totalPages, value + 1))\<close>, with the \<open>totalPages\<close> of
  the render the button belongs to) and \<open>resetFilters\<close> (\<open>setPage(1)\<close>). A change of
  the filters changes \<open>filtered\<close> and leaves \<open>page\<close> as it is.
\<close>

definition prevPage :: "int \<Rightarrow> int" where
  "prevPage v = max 1 (v - 1)"

definition nextPage :: "int \<Rightarrow> int \<Rightarrow> int" where
  "nextPage tp v = min tp (v + 1)"

inductive page_reachable :: "int \<Rightarrow> bool" where
  page_init: "page_reachable 1"
| page_prev: "page_reachable p \<Longrightarrow> page_reachable (prevPage p)"
| page_next: "page_reachable p \<Longrightarrow> page_reachable (nextPage (totalPages (filtered :: unit list)) p)"
| page_reset: "page_reachable p \<Longrightarrow> page_reachable 1"

section \<open>Properties of the parser\<close>

subsection \<open>More fuel changes no result\<close>

declare parse_value.simps [simp del] parse_elems.simps [simp del] parse_members.simps [simp del]

lemma close_or_mono:
  "(\<And>s x. p s = Some x \<Longrightarrow> q s = Some x) \<Longrightarrow>
   close_or c p cs = Some x \<Longrightarrow> close_or c q cs = Some x"
  by (auto simp: close_or_def split: list.splits if_splits)

lemma next_item_mono:
  "(\<And>s x. p s = Some x \<Longrightarrow> q s = Some x) \<Longrightarrow>
   next_item c y p r = Some x \<Longrightarrow> next_item c y q r = Some x"
  by (auto simp: next_item_def split: list.splits if_splits option.splits)

lemma fuel_Suc:
  "(\<forall>s x. parse_value n s = Some x \<longrightarrow> parse_value (Suc n) s = Some x)
   \<and> (\<forall>s x. parse_elems n s = Some x \<longrightarrow> parse_elems (Suc n) s = Some x)
   \<and> (\<forall>s x. parse_members n s = Some x \<longrightarrow> parse_members (Suc n) s = Some x)"
proof (induction n)
  case 0
  then show ?case by (simp add: parse_value.simps parse_elems.simps parse_members.simps)
next
  case (Suc n)
  then have v: "\<And>s x. parse_value n s = Some x \<Longrightarrow> parse_value (Suc n) s = Some x"
    and e: "\<And>s x. parse_elems n s = Some x \<Longrightarrow> parse_elems (Suc n) s = Some x"
    and m: "\<And>s x. parse_members n s = Some x \<Longrightarrow> parse_members (Suc n) s = Some x"
    by blast+
  have ce: "close_or c (parse_elems n) cs = Some x \<Longrightarrow>
            close_or c (parse_elems (Suc n)) cs = Some x" for c cs x
    by (rule close_or_mono [where p = "parse_elems n"]) (rule e)
  have cm: "close_or c (parse_members n) cs = Some x \<Longrightarrow>
            close_or c (parse_members (Suc n)) cs = Some x" for c cs x
    by (rule close_or_mono [where p = "parse_members n"]) (rule m)
  have ne: "next_item c y (parse_elems n) cs = Some x \<Longrightarrow>
            next_item c y (parse_elems (Suc n)) cs = Some x" for c y cs x
    by (rule next_item_mono [where p = "parse_elems n"]) (rule e)
  have nm: "next_item c y (parse_members n) cs = Some x \<Longrightarrow>
            next_item c y (parse_members (Suc n)) cs = Some x" for c y cs x
    by (rule next_item_mono [where p = "parse_members n"]) (rule m)
  have 1: "parse_value (Suc (Suc n)) s = Some x" if "parse_value (Suc n) s = Some x" for s x
    using that
    by (auto simp: parse_value.simps(2) [of "Suc n"] parse_value.simps(2) [of n]
             split: list.splits if_splits option.splits
             dest: ce cm)
  have 2: "parse_elems (Suc (Suc n)) s = Some x" if "parse_elems (Suc n) s = Some x" for s x
  proof -
    from that obtain w r where p: "parse_value n s = Some (w, r)"
        and q: "next_item (CHR '']'') w (parse_elems n) r = Some x"
      by (auto simp: parse_elems.simps(2) [of n] split: option.splits)
    show ?thesis
      by (simp add: parse_elems.simps(2) [of "Suc n"] v [OF p] ne [OF q])
  qed
  have 3: "parse_members (Suc (Suc n)) s = Some x" if "parse_members (Suc n) s = Some x" for s x
  proof -
    from that obtain k r2 w r where k: "member_key s = Some (k, r2)"
        and p: "parse_value n r2 = Some (w, r)"
        and q: "next_item (CHR ''}'') (k, w) (parse_members n) r = Some x"
      by (auto simp: parse_members.simps(2) [of n] split: option.splits)
    show ?thesis
      by (simp add: parse_members.simps(2) [of "Suc n"] k v [OF p] nm [OF q])
  qed
  show ?case using 1 2 3 by blast
qed

lemma fuel_mono:
  assumes "n \<le> m"
  shows "parse_value n s = Some x \<Longrightarrow> parse_value m s = Some x"
    and "parse_elems n s = Some y \<Longrightarrow> parse_elems m s = Some y"
    and "parse_members n s = Some z \<Longrightarrow> parse_members m s = Some z"
  using assms
  by (induction m; auto simp: le_Suc_eq fuel_Suc)+

section \<open>Properties of the pagination\<close>

lemma neg_div_15: "- (- int n div 15) = (int n + 14) div 15"
proof -
  define q r where "q = int n div 15" and "r = int n mod 15"
  have n: "int n = 15 * q + r" and r: "0 \<le> r" "r < 15"
    by (simp_all add: q_def r_def)
  have a: "(int n + 14) div 15 = q + (r + 14) div 15"
    unfolding n by (simp add: add.assoc)
  have b: "- int n div 15 = - q + (- r) div 15"
    unfolding n by (simp add: algebra_simps)
  show ?thesis
  proof (cases "r = 0")
    case True
    then show ?thesis by (simp add: a b)
  next
    case False
    with r have "(r + 14) div 15 = 1" "(- r) div 15 = - 1"
      by (auto simp: div_eq_minus1 zdiv_eq_0_iff
               intro: int_div_pos_eq [where r = "r - 1"] int_div_neg_eq [where r = "15 - r"])
    then show ?thesis by (simp add: a b)
  qed
qed

lemma ceiling_div_pageSize:
  "\<lceil>(of_nat n :: rat) / of_int pageSize\<rceil> = (int n + 14) div 15"
proof -
  have "\<lceil>(of_int (int n) :: rat) / of_int 15\<rceil> = - (- int n div 15)"
    by (rule ceiling_divide_eq_div)
  then show ?thesis by (simp add: pageSize_def neg_div_15)
qed

lemma totalPages_div: "totalPages xs = max 1 ((int (length xs) + 14) div 15)"
  by (simp add: totalPages_def ceiling_div_pageSize)

lemma totalPages_ge_1: "1 \<le> totalPages xs"
  by (simp add: totalPages_def)

lemma page_reachable_ge_1: "page_reachable p \<Longrightarrow> 1 \<le> p"
  by (induction rule: page_reachable.induct)
     (simp_all add: prevPage_def nextPage_def totalPages_ge_1)

lemma pageRows_take_drop:
  assumes "1 \<le> page"
  shows "pageRows page xs =
           take 15 (drop (15 * nat (currentPage page xs - 1)) xs)"
proof -
  define c where "c = currentPage page xs"
  have c1: "1 \<le> c"
    using assms totalPages_ge_1 [of xs] by (simp add: c_def currentPage_def)
  define k where "k = nat (c - 1)"
  have c: "c = int k + 1" using c1 by (simp add: k_def)
  have s1: "slice_index (length xs) ((c - 1) * pageSize) = min (15 * k) (length xs)"
    by (simp add: slice_index_def pageSize_def c nat_mult_distrib mult.commute)
  have s2: "slice_index (length xs) (c * pageSize) = min (15 * k + 15) (length xs)"
    by (simp add: slice_index_def pageSize_def c nat_add_distrib nat_mult_distrib
                  algebra_simps)
  have "take (min (15 * k + 15) (length xs) - min (15 * k) (length xs))
             (drop (min (15 * k) (length xs)) xs) = take 15 (drop (15 * k) xs)"
    by (cases "15 * k \<le> length xs") (auto simp: min_def)
  then show ?thesis
    unfolding pageRows_def slice_def Let_def c_def [symmetric] s1 s2
    by (simp add: k_def)
qed

text \<open>
  C6. The number of pages is the page count of \<open>filtered\<close> at 15 rows a page, rounded
  up, and at least 1. Every page number the component can hold (reached from the initial
  1 by Prev, Next and Reset, whatever the filters did in between) is displayed as a
  current page between 1 and the number of pages, and the page shows the 15 rows from
  row \<open>15 * (currentPage - 1)\<close> on. With 32 filtered rows there are 3 pages: rows 1 to 15,
  rows 16 to 30, rows 31 and 32; a requested page 5 is displayed as page 3.
\<close>

theorem pagination_clamped:
  "totalPages xs = max 1 \<lceil>(of_nat (length xs) :: rat) / 15\<rceil>
   \<and> totalPages xs = max 1 ((int (length xs) + 14) div 15)
   \<and> (page_reachable page \<longrightarrow>
        1 \<le> currentPage page xs \<and> currentPage page xs \<le> totalPages xs
        \<and> pageRows page xs = take 15 (drop (15 * nat (currentPage page xs - 1)) xs))
   \<and> totalPages [1 ..< 33 :: nat] = 3
   \<and> pageRows 1 [1 ..< 33 :: nat] = [1 ..< 16]
   \<and> pageRows 2 [1 ..< 33 :: nat] = [16 ..< 31]
   \<and> pageRows 3 [1 ..< 33 :: nat] = [31, 32]
   \<and> currentPage 5 [1 ..< 33 :: nat] = 3
   \<and> pageRows 5 [1 ..< 33 :: nat] = [31, 32]"
proof -
  have l: "length [1 ..< 33 :: nat] = 32"
    by simp
  have t: "totalPages [1 ..< 33 :: nat] = 3"
    unfolding totalPages_div l by simp
  have c: "currentPage 1 [1 ..< 33 :: nat] = 1" "currentPage 2 [1 ..< 33 :: nat] = 2"
          "currentPage 3 [1 ..< 33 :: nat] = 3" "currentPage 5 [1 ..< 33 :: nat] = 3"
    unfolding currentPage_def t by simp_all
  have d: "drop 15 [1 ..< 33 :: nat] = [16 ..< 33]" "drop 30 [1 ..< 33 :: nat] = [31 ..< 33]"
    unfolding drop_upt by simp_all
  have u: "take 15 [31 ..< 33 :: nat] = [31, 32]"
    by (simp add: upt_rec)
  have n: "15 * nat (1 - 1) = 0" "15 * nat (2 - 1) = 15" "15 * nat (3 - 1) = 30"
    by simp_all
  have v: "take 15 [1 ..< 33 :: nat] = [1 ..< 16]" "take 15 [16 ..< 33 :: nat] = [16 ..< 31]"
    unfolding take_upt [of 1 15 33, simplified] take_upt [of 16 15 33, simplified]
    by simp_all
  have p1: "pageRows 1 [1 ..< 33 :: nat] = [1 ..< 16]"
    unfolding pageRows_take_drop [of 1, simplified] c n drop_0 by (rule v)
  have p2: "pageRows 2 [1 ..< 33 :: nat] = [16 ..< 31]"
    unfolding pageRows_take_drop [of 2, simplified] c n d by (rule v)
  have p3: "pageRows 3 [1 ..< 33 :: nat] = [31, 32]"
    unfolding pageRows_take_drop [of 3, simplified] c n d by (rule u)
  have p5: "pageRows 5 [1 ..< 33 :: nat] = [31, 32]"
    unfolding pageRows_take_drop [of 5, simplified] c n d by (rule u)
  have r: "page_reachable page \<Longrightarrow>
        1 \<le> currentPage page xs \<and> currentPage page xs \<le> totalPages xs
        \<and> pageRows page xs = take 15 (drop (15 * nat (currentPage page xs - 1)) xs)"
    using page_reachable_ge_1 [of page] totalPages_ge_1 [of xs]
    by (simp add: currentPage_def pageRows_take_drop)
  have g: "totalPages xs = max 1 \<lceil>(of_nat (length xs) :: rat) / 15\<rceil>"
    by (simp add: totalPages_def pageSize_def)
  show ?thesis
    by (intro conjI impI g totalPages_div t p1 p2 p3 p5 c(4)) (simp_all add: r)
qed

theorem pagination_clamped_witness:
  "page_reachable (nextPage (totalPages [(), ()]) 1)
   \<and> currentPage (nextPage (totalPages [(), ()]) 1) [(), ()] = 1
   \<and> pageRows (nextPage (totalPages [(), ()]) 1) [(), ()] = [(), ()]"
proof -
  have h: "page_reachable (nextPage (totalPages [(), ()]) 1)"
    by (rule page_next [OF page_init])
  have t: "totalPages [(), ()] = 1"
    by (simp add: totalPages_div)
  show ?thesis
    using h pagination_clamped [of "[(), ()]" "nextPage (totalPages [(), ()]) 1"]
    by (simp add: t nextPage_def currentPage_def)
qed

section \<open>Properties of the coercions\<close>

lemma to_String_error:
  "to_String v = Inl e \<Longrightarrow> e = TypeError"
  "elements_to_String vs = Inl e \<Longrightarrow> e = TypeError"
  by (induction v and vs rule: to_String_elements_to_String.induct)
     (auto split: sum.splits if_splits)

section \<open>Properties of the CSV cells\<close>

lemma replaceAll_quote_simps [simp]:
  "replaceAll_quote [] = []"
  "replaceAll_quote (c # s) = (if c = CHR 0x22 then [CHR 0x22, CHR 0x22] else [c]) @ replaceAll_quote s"
  by (simp_all add: replaceAll_quote_def)

lemma set_replaceAll_quote: "set (replaceAll_quote s) = set s"
  by (induction s) auto

lemma replaceAll_quote_id: "CHR 0x22 \<notin> set s \<Longrightarrow> replaceAll_quote s = s"
  by (induction s) auto

lemma escaped_cell_replaceAll:
  "escaped_cell s =
     (if CHR '','' \<in> set s \<or> CHR 0x0A \<in> set s \<or> CHR 0x22 \<in> set s
      then [CHR 0x22] @ replaceAll_quote s @ [CHR 0x22] else s)"
  by (simp add: escaped_cell_def replaceAll_quote_def)

lemma toCSV_escaped:
  "toCSV v = (case cell_text v of Inl e \<Rightarrow> Inl e | Inr s \<Rightarrow> Inr (escaped_cell s))"
  by (auto simp: toCSV_def cell_text_def Let_def set_replaceAll_quote escaped_cell_replaceAll
                 replaceAll_quote_id split: sum.splits)

lemma csvEscape_escaped: "csvEscape s = escaped_cell (explorer_cell_text s)"
  by (auto simp: csvEscape_def explorer_cell_text_def Let_def escaped_cell_replaceAll)

lemma csv_plain:
  assumes "CHR '','' \<notin> set s" "CHR 0x0A \<notin> set s" "CHR 0x22 \<notin> set s"
  shows "csv_parse False cur rec (s @ CHR '','' # rest) = csv_parse False [] (rec @ [cur @ s]) rest"
    and "csv_parse False cur rec (s @ CHR 0x0A # rest) = (rec @ [cur @ s]) # csv_parse False [] [] rest"
    and "csv_parse False cur rec s = [rec @ [cur @ s]]"
  using assms by (induction s arbitrary: cur) auto

lemma csv_quoted:
  shows "csv_parse True cur rec (replaceAll_quote s @ CHR 0x22 # CHR '','' # rest)
           = csv_parse False [] (rec @ [cur @ s]) rest"
    and "csv_parse True cur rec (replaceAll_quote s @ CHR 0x22 # CHR 0x0A # rest)
           = (rec @ [cur @ s]) # csv_parse False [] [] rest"
    and "csv_parse True cur rec (replaceAll_quote s @ [CHR 0x22]) = [rec @ [cur @ s]]"
proof (induction s arbitrary: cur)
  case Nil
  {
    case 1 show ?case by simp
  next
    case 2 show ?case by simp
  next
    case 3 show ?case by simp
  }
next
  case (Cons c s)
  have ne: "\<And>t. \<exists>d ds. replaceAll_quote s @ CHR 0x22 # t = d # ds"
    by (cases "replaceAll_quote s") auto
  {
    case 1
    obtain d ds where e: "replaceAll_quote s @ CHR 0x22 # CHR '','' # rest = d # ds"
      using ne by blast
    show ?case using Cons.IH(1) [of "cur @ [c]"] e by (cases "c = CHR 0x22") auto
  next
    case 2
    obtain d ds where e: "replaceAll_quote s @ CHR 0x22 # CHR 0x0A # rest = d # ds"
      using ne by blast
    show ?case using Cons.IH(2) [of "cur @ [c]"] e by (cases "c = CHR 0x22") auto
  next
    case 3
    obtain d ds where e: "replaceAll_quote s @ [CHR 0x22] = d # ds"
      using ne by blast
    show ?case using Cons.IH(3) [of "cur @ [c]"] e by (cases "c = CHR 0x22") auto
  }
qed

lemma csv_cell:
  shows "csv_parse False [] rec (escaped_cell s @ CHR '','' # rest) = csv_parse False [] (rec @ [s]) rest"
    and "csv_parse False [] rec (escaped_cell s @ CHR 0x0A # rest) = (rec @ [s]) # csv_parse False [] [] rest"
    and "csv_parse False [] rec (escaped_cell s) = [rec @ [s]]"
  unfolding escaped_cell_replaceAll
  using csv_plain(1,2) [of s "[]" rec rest] csv_plain(3) [of s "[]" rec]
        csv_quoted(1,2) [of "[]" rec s rest] csv_quoted(3) [of "[]" rec s]
  by auto

lemma csv_record:
  assumes "ts \<noteq> []"
  shows "csv_parse False [] rec (join '','' (map escaped_cell ts) @ CHR 0x0A # rest)
           = (rec @ ts) # csv_parse False [] [] rest"
    and "csv_parse False [] rec (join '','' (map escaped_cell ts)) = [rec @ ts]"
  using assms
proof (induction ts arbitrary: rec rule: induct_list012)
  case 1
  { case 1 then show ?case by simp next case 2 then show ?case by simp }
next
  case (2 v)
  { case 1 show ?case by (simp add: csv_cell)
  next case 2 show ?case by (simp add: csv_cell) }
next
  case (3 v w ws)
  { case 1 show ?case using 3(3) [of "rec @ [v]"] by (simp add: csv_cell)
  next case 2 show ?case using 3(4) [of "rec @ [v]"] by (simp add: csv_cell) }
qed

lemma csv_read_back:
  assumes "tss \<noteq> []" "\<forall>ts \<in> set tss. ts \<noteq> []"
  shows "csv_parse False [] [] (join [CHR 0x0A] (map (\<lambda>ts. join '','' (map escaped_cell ts)) tss))
           = tss"
  using assms
proof (induction tss rule: induct_list012)
  case 1
  then show ?case by simp
next
  case (2 r)
  then show ?case by (simp add: csv_record)
next
  case (3 r s ss)
  then show ?case by (simp add: csv_record)
qed

lemma map_throwing_length: "map_throwing f xs = Inr ys \<Longrightarrow> length ys = length xs"
  by (induction xs arbitrary: ys) (auto split: sum.splits)

lemma map_throwing_case:
  "map_throwing (\<lambda>x. case f x of Inl e \<Rightarrow> Inl e | Inr y \<Rightarrow> Inr (g y)) xs
     = (case map_throwing f xs of Inl e \<Rightarrow> Inl e | Inr ys \<Rightarrow> Inr (map g ys))"
  by (induction xs) (auto split: sum.splits)

lemma csv_line_cell_text:
  "csv_line cells
     = (case map_throwing cell_text cells of
          Inl e \<Rightarrow> Inl e
        | Inr ts \<Rightarrow> Inr (join '','' (map escaped_cell ts)))"
proof -
  have e: "toCSV = (\<lambda>v. case cell_text v of Inl e \<Rightarrow> Inl e | Inr s \<Rightarrow> Inr (escaped_cell s))"
    by (rule ext) (rule toCSV_escaped)
  show ?thesis
    unfolding csv_line_def e map_throwing_case by (simp split: sum.splits)
qed

lemma csv_text_cell_text:
  "csv_text records
     = (case map_throwing (map_throwing cell_text) records of
          Inl e \<Rightarrow> Inl e
        | Inr tss \<Rightarrow> Inr (join [CHR 0x0A] (map (\<lambda>ts. join '','' (map escaped_cell ts)) tss)))"
proof -
  have e: "csv_line = (\<lambda>cells. case map_throwing cell_text cells of Inl e \<Rightarrow> Inl e
                             | Inr ts \<Rightarrow> Inr (join '','' (map escaped_cell ts)))"
    by (rule ext) (rule csv_line_cell_text)
  show ?thesis
    unfolding csv_text_def e map_throwing_case by (simp split: sum.splits)
qed

lemma map_throwing_nonempty:
  assumes "map_throwing (map_throwing f) xss = Inr yss" "xss \<noteq> []" "\<forall>xs \<in> set xss. xs \<noteq> []"
  shows "yss \<noteq> [] \<and> (\<forall>ys \<in> set yss. ys \<noteq> [])"
  using assms
proof (induction xss arbitrary: yss)
  case Nil
  then show ?case by simp
next
  case (Cons xs xss)
  then obtain ys yss' where y: "map_throwing f xs = Inr ys" "map_throwing (map_throwing f) xss = Inr yss'"
      "yss = ys # yss'"
    by (auto split: sum.splits)
  have "ys \<noteq> []" using map_throwing_length [OF y(1)] Cons.prems(3) by auto
  moreover have "\<forall>ys \<in> set yss'. ys \<noteq> []"
  proof (cases xss)
    case Nil
    then show ?thesis using y(2) by simp
  next
    case (Cons a list)
    then show ?thesis using Cons.IH [OF y(2)] Cons.prems(3) \<open>xss = a # list\<close> by auto
  qed
  ultimately show ?case using y(3) by simp
qed

lemma csv_text_read_back:
  assumes "records \<noteq> []" "\<forall>r \<in> set records. r \<noteq> []"
  shows "map_throwing (map_throwing cell_text) records
           = (case csv_text records of Inl e \<Rightarrow> Inl e | Inr t \<Rightarrow> Inr (csv_parse False [] [] t))"
proof (cases "map_throwing (map_throwing cell_text) records")
  case (Inl e)
  then show ?thesis by (simp add: csv_text_cell_text)
next
  case (Inr tss)
  then show ?thesis
    using map_throwing_nonempty [OF Inr assms] by (simp add: csv_text_cell_text csv_read_back)
qed

lemma explorer_text_read_back:
  assumes "records \<noteq> []" "\<forall>r \<in> set records. r \<noteq> []"
  shows "csv_parse False [] [] (explorer_text records) = map (map explorer_cell_text) records"
proof -
  have "explorer_text records
          = join [CHR 0x0A] (map (\<lambda>ts. join '','' (map escaped_cell ts))
                                 (map (map explorer_cell_text) records))"
  proof -
    have "csvEscape = (\<lambda>s. escaped_cell (explorer_cell_text s))"
      by (rule ext) (rule csvEscape_escaped)
    then show ?thesis
      by (simp add: explorer_text_def comp_def)
  qed
  then show ?thesis
    using csv_read_back [of "map (map explorer_cell_text) records"] assms by simp
qed


text \<open>
  C5, as amended. A cell that is \<open>null\<close> or \<open>undefined\<close> is the empty text, in
  \<open>toCSV\<close> and in the explorer's \<open>csvEscape\<close>. Any other cell has a text: in \<open>toCSV\<close>
  it is \<open>String\<close> of the value, and \<open>toCSV\<close> throws where \<open>String\<close> throws; in
  \<open>csvEscape\<close> it is the value itself when that is a string and its JSON serialization
  otherwise. In both, the cell is the text wrapped in double quotes, with each of its
  double quotes doubled, exactly when the text holds a comma, a line feed or a double
  quote, and the text as it is otherwise. The value \<open>He said "hi", ok\<close> becomes
  \<open>"He said ""hi"", ok"\<close>. Reading an exported text back by the quoting rule gives the
  texts of the cells again, record by record.
\<close>

theorem csv_cell_escaping:
  \<open>toCSV JNull = Inr [] \<and> toCSV JUndefined = Inr []
   \<and> csvEscape JNull = [] \<and> csvEscape JUndefined = []
   \<and> (v \<noteq> JNull \<and> v \<noteq> JUndefined \<longrightarrow>
        toCSV v = (case to_String v of Inl e \<Rightarrow> Inl e | Inr s \<Rightarrow> Inr (escaped_cell s))
        \<and> csvEscape v = escaped_cell (case v of JStr t \<Rightarrow> t | _ \<Rightarrow> stringify_value v))
   \<and> escaped_cell t =
        (if CHR '','' \<in> set t \<or> CHR 0x0A \<in> set t \<or> CHR 0x22 \<in> set t
         then [CHR 0x22] @ concat (map (\<lambda>c. if c = CHR 0x22 then [CHR 0x22, CHR 0x22] else [c]) t)
              @ [CHR 0x22]
         else t)
   \<and> toCSV (JStr ''He said "hi", ok'') = Inr ''"He said ""hi"", ok"''
   \<and> csvEscape (JStr ''He said "hi", ok'') = ''"He said ""hi"", ok"''
   \<and> (records \<noteq> [] \<and> (\<forall>r \<in> set records. r \<noteq> []) \<longrightarrow>
        map_throwing (map_throwing cell_text) records
          = (case csv_text records of
               Inl e \<Rightarrow> Inl e
             | Inr text \<Rightarrow> Inr (csv_parse False [] [] text))
        \<and> csv_parse False [] [] (explorer_text records)
            = map (map explorer_cell_text) records)\<close>
proof -
  have a: "toCSV JNull = Inr []" "toCSV JUndefined = Inr []"
    "csvEscape JNull = []" "csvEscape JUndefined = []"
    by (simp_all add: toCSV_def csvEscape_def)
  have b: "v \<noteq> JNull \<and> v \<noteq> JUndefined \<longrightarrow>
        toCSV v = (case to_String v of Inl e \<Rightarrow> Inl e | Inr s \<Rightarrow> Inr (escaped_cell s))
        \<and> csvEscape v = escaped_cell (case v of JStr t \<Rightarrow> t | _ \<Rightarrow> stringify_value v)"
    by (simp add: toCSV_escaped csvEscape_escaped cell_text_def explorer_cell_text_def)
  have c: \<open>toCSV (JStr ''He said "hi", ok'') = Inr ''"He said ""hi"", ok"''\<close>
    \<open>csvEscape (JStr ''He said "hi", ok'') = ''"He said ""hi"", ok"''\<close>
    by (simp_all add: toCSV_def csvEscape_def)
  have d: "escaped_cell t =
        (if CHR '','' \<in> set t \<or> CHR 0x0A \<in> set t \<or> CHR 0x22 \<in> set t
         then [CHR 0x22] @ concat (map (\<lambda>c. if c = CHR 0x22 then [CHR 0x22, CHR 0x22] else [c]) t)
              @ [CHR 0x22]
         else t)"
    by (rule escaped_cell_def)
  have r: "records \<noteq> [] \<and> (\<forall>r \<in> set records. r \<noteq> []) \<longrightarrow>
        map_throwing (map_throwing cell_text) records
          = (case csv_text records of
               Inl e \<Rightarrow> Inl e
             | Inr text \<Rightarrow> Inr (csv_parse False [] [] text))
        \<and> csv_parse False [] [] (explorer_text records)
            = map (map explorer_cell_text) records"
    using csv_text_read_back [of records] explorer_text_read_back [of records] by blast
  show ?thesis
    by (intro conjI a b c d r)
qed

theorem csv_cell_escaping_witness:
  \<open>toCSV (JStr ''a,b'') = Inr ''"a,b"''
   \<and> csvEscape (JStr ''a,b'') = ''"a,b"''
   \<and> toCSV (JArr [JStr ''a'', JObj [(''toString'', JNull)]]) = Inl TypeError
   \<and> csv_text [[JStr ''x"y'', JNull], [JStr ''1,5'', JBool True]]
       = Inr (''"x""y",'' @ [CHR 0x0A] @ ''"1,5",true'')
   \<and> csv_parse False [] [] (''"x""y",'' @ [CHR 0x0A] @ ''"1,5",true'')
       = [[''x"y'', []], [''1,5'', ''true'']]
   \<and> csv_parse False [] [] (explorer_text [[JStr ''x"y'', JNull], [JStr ''1,5'', JBool True]])
       = [[''x"y'', []], [''1,5'', ''true'']]\<close>
proof -
  have t: \<open>csv_text [[JStr ''x"y'', JNull], [JStr ''1,5'', JBool True]]
       = Inr (''"x""y",'' @ [CHR 0x0A] @ ''"1,5",true'')\<close>
    by (simp add: csv_text_def csv_line_def toCSV_def)
  have h: \<open>[[JStr ''x"y'', JNull], [JStr ''1,5'', JBool True]] \<noteq> []
      \<and> (\<forall>r \<in> set [[JStr ''x"y'', JNull], [JStr ''1,5'', JBool True]]. r \<noteq> [])\<close>
    by simp
  have g: \<open>JStr ''a,b'' \<noteq> JNull \<and> JStr ''a,b'' \<noteq> JUndefined\<close>
    \<open>JArr [JStr ''a'', JObj [(''toString'', JNull)]] \<noteq> JNull
     \<and> JArr [JStr ''a'', JObj [(''toString'', JNull)]] \<noteq> JUndefined\<close>
    by simp_all
  have e: \<open>escaped_cell ''a,b'' = ''"a,b"''\<close>
    by (simp add: escaped_cell_def)
  show ?thesis
    using g h e
      csv_cell_escaping [of \<open>JStr ''a,b''\<close> \<open>[]\<close>
                            \<open>[[JStr ''x"y'', JNull], [JStr ''1,5'', JBool True]]\<close>]
      csv_cell_escaping [of \<open>JArr [JStr ''a'', JObj [(''toString'', JNull)]]\<close> \<open>[]\<close> \<open>[]\<close>]
    unfolding t by (simp add: cell_text_def explorer_cell_text_def)
qed

text \<open>
  The claim as it stands says of both exports that the cell is \<open>String\<close> of the value.
  On the empty object \<open>String\<close> gives \<open>[object Object]\<close>, which is the cell of \<open>toCSV\<close>,
  while \<open>csvEscape\<close> gives \<open>{}\<close>; on the array of \<open>a\<close> and \<open>b\<close> \<open>String\<close> gives \<open>a,b\<close>
  and the cell of \<open>toCSV\<close> is \<open>"a,b"\<close>, while \<open>csvEscape\<close> gives \<open>"[""a"",""b""]"\<close>.
\<close>

theorem csv_cell_escaping_counterexample:
  \<open>to_String (JObj []) = Inr ''[object Object]''
   \<and> toCSV (JObj []) = Inr ''[object Object]''
   \<and> csvEscape (JObj []) = ''{}''
   \<and> to_String (JArr [JStr ''a'', JStr ''b'']) = Inr ''a,b''
   \<and> toCSV (JArr [JStr ''a'', JStr ''b'']) = Inr ''"a,b"''
   \<and> csvEscape (JArr [JStr ''a'', JStr ''b'']) = ''"[""a"",""b""]"''\<close>
  by (simp add: toCSV_def csvEscape_def quote_string_def quote_char_def)

section \<open>Properties of the price filter\<close>

lemmas number_eval =
  StringToNumber_def trim_def is_js_space_def decimal_literal_def is_digit_def
  exponent_part_def digits_val_def digit_val_def scale10_def

lemma to_Number_error: "to_Number v = Inl e \<longleftrightarrow> to_String v = Inl e"
  by (cases v) (auto split: sum.splits)

lemma toNum_error: "toNum v = Inl e \<longleftrightarrow> to_String v = Inl e"
  by (auto simp: toNum_def to_Number_error)

lemma filter_throwing_total:
  assumes "\<forall>x \<in> set xs. \<exists>b. f x = Inr b"
  shows "filter_throwing f xs = Inr (filter (\<lambda>x. f x = Inr True) xs)"
  using assms by (induction xs) (auto split: sum.splits)

lemma filter_throwing_throws:
  assumes "\<exists>x \<in> set xs. f x = Inl TypeError" "\<forall>x \<in> set xs. \<forall>e. f x = Inl e \<longrightarrow> e = TypeError"
  shows "filter_throwing f xs = Inl TypeError"
  using assms by (induction xs) (auto split: sum.splits, blast+)

lemma price_readable_iff: "price_readable row \<longleftrightarrow> (\<exists>x. row_price row = Inr x)"
  by (simp add: price_readable_def split: sum.splits)

lemma price_unreadable: "\<not> price_readable row \<longleftrightarrow> row_price row = Inl TypeError"
proof
  assume "\<not> price_readable row"
  then obtain e where e: "row_price row = Inl e"
    by (auto simp: price_readable_def split: sum.splits)
  then have "to_String (member row ''variant_price'') = Inl e"
    by (simp add: row_price_def toNum_error)
  then have "e = TypeError"
    by (rule to_String_error(1))
  with e show "row_price row = Inl TypeError"
    by simp
next
  assume "row_price row = Inl TypeError"
  then show "\<not> price_readable row"
    by (simp add: price_readable_def)
qed

lemma filter_price_readable:
  assumes "list_all price_readable rows"
  shows "filter_price mn mx rows = Inr (filter (price_within mn mx) rows)"
proof -
  have r: "\<forall>row \<in> set rows'. \<exists>x. toNum (member row ''variant_price'') = Inr x"
    if "set rows' \<subseteq> set rows" for rows'
    using assms that by (auto simp: list_all_iff price_readable_iff row_price_def)
  have f: "filter_throwing
             (\<lambda>row. case toNum (member row ''variant_price'') of
                       Inl e \<Rightarrow> Inl e | Inr x \<Rightarrow> Inr (g x)) rows'
           = Inr (filter (\<lambda>row. case row_price row of Inl e \<Rightarrow> False | Inr x \<Rightarrow> g x) rows')"
    if "set rows' \<subseteq> set rows" for rows' g
  proof -
    have "filter_throwing
             (\<lambda>row. case toNum (member row ''variant_price'') of
                       Inl e \<Rightarrow> Inl e | Inr x \<Rightarrow> Inr (g x)) rows'
          = Inr (filter (\<lambda>row. (case toNum (member row ''variant_price'') of
                       Inl e \<Rightarrow> Inl e | Inr x \<Rightarrow> Inr (g x)) = Inr True) rows')"
      by (rule filter_throwing_total) (use r [OF that] in \<open>auto split: sum.splits\<close>)
    also have "filter (\<lambda>row. (case toNum (member row ''variant_price'') of
                       Inl e \<Rightarrow> Inl e | Inr x \<Rightarrow> Inr (g x)) = Inr True) rows'
             = filter (\<lambda>row. case row_price row of Inl e \<Rightarrow> False | Inr x \<Rightarrow> g x) rows'"
      by (rule filter_cong) (auto simp: row_price_def split: sum.splits)
    finally show ?thesis .
  qed
  have i: "filter (price_within [] []) rows = rows"
    using r [of rows] by (auto simp: filter_id_conv price_within_def row_price_def)
  show ?thesis
  proof (cases "mn = []"; cases "mx = []")
    assume "mn = []" "mx = []"
    then show ?thesis
      by (simp add: filter_price_def i)
  next
    assume "mn = []" "mx \<noteq> []"
    then show ?thesis
      by (auto simp: filter_price_def f price_within_def intro!: filter_cong split: sum.splits)
  next
    assume "mn \<noteq> []" "mx = []"
    then show ?thesis
      by (auto simp: filter_price_def f price_within_def intro!: filter_cong split: sum.splits)
  next
    assume "mn \<noteq> []" "mx \<noteq> []"
    then show ?thesis
      by (auto simp: filter_price_def f price_within_def intro!: filter_cong split: sum.splits)
  qed
qed

lemma filter_price_throws:
  assumes "\<not> list_all price_readable rows" "mn \<noteq> [] \<or> mx \<noteq> []"
  shows "filter_price mn mx rows = Inl TypeError"
proof -
  obtain row where row: "row \<in> set rows" "row_price row = Inl TypeError"
    using assms(1) by (auto simp: list_all_iff price_unreadable)
  have t: "filter_throwing
             (\<lambda>row. case toNum (member row ''variant_price'') of
                       Inl e \<Rightarrow> Inl e | Inr x \<Rightarrow> Inr (g x)) rows = Inl TypeError" for g
  proof (rule filter_throwing_throws)
    show "\<exists>x\<in>set rows. (case toNum (member x ''variant_price'') of
                       Inl e \<Rightarrow> Inl e | Inr x \<Rightarrow> Inr (g x)) = Inl TypeError"
      using row by (auto simp: row_price_def intro!: bexI [of _ row])
    show "\<forall>x\<in>set rows. \<forall>e. (case toNum (member x ''variant_price'') of
                       Inl e \<Rightarrow> Inl e | Inr x \<Rightarrow> Inr (g x)) = Inl e \<longrightarrow> e = TypeError"
      using to_String_error(1) by (auto simp: toNum_error split: sum.splits)
  qed
  show ?thesis
    using assms(2) unfolding filter_price_def by (auto simp: t)
qed

lemma num_le_NaN [simp]: "\<not> num_le x NaN" "\<not> num_le NaN x"
  by (cases x; simp)+

lemma toNum_absent:
  "toNum JUndefined = Inr NaN" "toNum JNull = Inr NaN" "toNum (JStr []) = Inr NaN"
  by (simp_all add: toNum_def)

lemma filter_price_NaN:
  assumes "row_price row = Inr NaN" "mn \<noteq> [] \<or> mx \<noteq> []" "filter_price mn mx rows = Inr out"
  shows "row \<notin> set out"
proof -
  have "list_all price_readable rows"
    using filter_price_throws [of rows mn mx] assms(2,3) by auto
  then have "out = filter (price_within mn mx) rows"
    using filter_price_readable [of rows mn mx] assms(3) by simp
  then show ?thesis
    using assms(1,2) by (auto simp: price_within_def num_ge_def)
qed

theorem price_range_filter:
  "(list_all price_readable rows \<longrightarrow>
      filter_price mn mx rows = Inr (filter (price_within mn mx) rows))
   \<and> (\<not> list_all price_readable rows \<and> (mn \<noteq> [] \<or> mx \<noteq> []) \<longrightarrow>
      filter_price mn mx rows = Inl TypeError)
   \<and> filter_price [] [] rows = Inr rows
   \<and> (row_price row = Inr (Fin p) \<and> StringToNumber mn = Fin a
        \<and> StringToNumber mx = Fin b \<and> mn \<noteq> [] \<and> mx \<noteq> [] \<longrightarrow>
        filter_price mn [] [row] = Inr (if a \<le> p then [row] else [])
        \<and> filter_price [] mx [row] = Inr (if p \<le> b then [row] else [])
        \<and> filter_price mn mx [row] = Inr (if a \<le> p \<and> p \<le> b then [row] else []))
   \<and> (member row ''variant_price'' = JStr ''24.99'' \<longrightarrow>
        filter_price ''20'' ''30'' [row] = Inr [row]
        \<and> filter_price ''25'' [] [row] = Inr []
        \<and> filter_price [] ''24'' [row] = Inr []
        \<and> filter_price ''24.99'' ''24.99'' [row] = Inr [row])
   \<and> (row_price row = Inr NaN \<and> (mn \<noteq> [] \<or> mx \<noteq> []) \<and> filter_price mn mx rows = Inr out \<longrightarrow>
        row \<notin> set out)
   \<and> toNum (JStr []) = Inr NaN \<and> toNum JUndefined = Inr NaN \<and> toNum JNull = Inr NaN
   \<and> row_price (JObj []) = Inr NaN
   \<and> toNum (JStr ''n/a'') = Inr NaN
   \<and> (price_readable row \<longleftrightarrow> to_String (member row ''variant_price'') \<noteq> Inl TypeError)"
proof -
  have n: "StringToNumber ''24.99'' = Fin (2499 / 100)" "StringToNumber ''20'' = Fin 20"
    "StringToNumber ''30'' = Fin 30" "StringToNumber ''25'' = Fin 25"
    "StringToNumber ''24'' = Fin 24" "StringToNumber ''n/a'' = NaN"
    by (simp_all add: number_eval)
  have one: "list_all price_readable [row] \<Longrightarrow>
             filter_price mn' mx' [row] = Inr (filter (price_within mn' mx') [row])" for mn' mx'
    by (rule filter_price_readable)
  have c: "member row ''variant_price'' = JStr ''24.99'' \<longrightarrow>
        filter_price ''20'' ''30'' [row] = Inr [row]
        \<and> filter_price ''25'' [] [row] = Inr []
        \<and> filter_price [] ''24'' [row] = Inr []
        \<and> filter_price ''24.99'' ''24.99'' [row] = Inr [row]"
  proof
    assume m: "member row ''variant_price'' = JStr ''24.99''"
    then have p: "row_price row = Inr (Fin (2499 / 100))"
      by (simp add: row_price_def toNum_def n)
    then have "list_all price_readable [row]"
      by (simp add: price_readable_def)
    then show "filter_price ''20'' ''30'' [row] = Inr [row]
        \<and> filter_price ''25'' [] [row] = Inr []
        \<and> filter_price [] ''24'' [row] = Inr []
        \<and> filter_price ''24.99'' ''24.99'' [row] = Inr [row]"
      by (simp add: one price_within_def p n num_ge_def)
  qed
  have g: "row_price row = Inr (Fin p) \<and> StringToNumber mn = Fin a
        \<and> StringToNumber mx = Fin b \<and> mn \<noteq> [] \<and> mx \<noteq> [] \<longrightarrow>
        filter_price mn [] [row] = Inr (if a \<le> p then [row] else [])
        \<and> filter_price [] mx [row] = Inr (if p \<le> b then [row] else [])
        \<and> filter_price mn mx [row] = Inr (if a \<le> p \<and> p \<le> b then [row] else [])"
  proof
    assume h: "row_price row = Inr (Fin p) \<and> StringToNumber mn = Fin a
        \<and> StringToNumber mx = Fin b \<and> mn \<noteq> [] \<and> mx \<noteq> []"
    then have "list_all price_readable [row]"
      by (simp add: price_readable_def)
    then show "filter_price mn [] [row] = Inr (if a \<le> p then [row] else [])
        \<and> filter_price [] mx [row] = Inr (if p \<le> b then [row] else [])
        \<and> filter_price mn mx [row] = Inr (if a \<le> p \<and> p \<le> b then [row] else [])"
      using h by (simp add: one price_within_def num_ge_def)
  qed
  have e: "filter_price [] [] rows = Inr rows"
    by (simp add: filter_price_def)
  have x: "row_price row = Inr NaN \<and> (mn \<noteq> [] \<or> mx \<noteq> []) \<and> filter_price mn mx rows = Inr out \<longrightarrow>
        row \<notin> set out"
    using filter_price_NaN [of row mn mx rows out] by blast
  have y: "row_price (JObj []) = Inr NaN" "toNum (JStr ''n/a'') = Inr NaN"
    by (simp_all add: row_price_def toNum_def member_def n)
  have z: "price_readable row \<longleftrightarrow> to_String (member row ''variant_price'') \<noteq> Inl TypeError"
    using price_unreadable [of row] by (auto simp: row_price_def toNum_error)
  have t: "\<not> list_all price_readable rows \<and> (mn \<noteq> [] \<or> mx \<noteq> []) \<longrightarrow>
      filter_price mn mx rows = Inl TypeError"
    using filter_price_throws [of rows mn mx] by blast
  show ?thesis
    using c g x y z e t filter_price_readable [of rows mn mx] toNum_absent by blast
qed

theorem price_range_filter_witness:
  "filter_price ''20'' ''30'' [JObj [(''variant_price'', JStr ''24.99'')]]
     = Inr [JObj [(''variant_price'', JStr ''24.99'')]]
   \<and> filter_price ''25'' [] [JObj [(''variant_price'', JStr ''24.99'')]] = Inr []
   \<and> filter_price [] ''24'' [JObj [(''variant_price'', JStr ''24.99'')]] = Inr []
   \<and> filter_price [] ''30'' [JObj [(''variant_price'', JStr ''oops'')],
                              JObj [(''variant_price'', JStr ''7'')]]
       = Inr [JObj [(''variant_price'', JStr ''7'')]]
   \<and> filter_price [] ''30'' [JObj [(''variant_price'', JStr ''7'')],
                              JObj [(''variant_price'', JArr [JObj [(''toString'', JNull)]])]]
       = Inl TypeError
   \<and> filter_price ''24.99'' [] [JObj [(''variant_price'', JNum (Fin (2499 / 100)))]]
       = Inr [JObj [(''variant_price'', JNum (Fin (2499 / 100)))]]"
proof -
  have n: "StringToNumber ''24.99'' = Fin (2499 / 100)" "StringToNumber ''30'' = Fin 30"
    "StringToNumber ''oops'' = NaN" "StringToNumber ''7'' = Fin 7"
    by (simp_all add: number_eval)
  have a: "member (JObj [(''variant_price'', JStr ''24.99'')]) ''variant_price'' = JStr ''24.99''"
    by (simp add: member_def)
  have b: "list_all price_readable [JObj [(''variant_price'', JStr ''oops'')],
                                    JObj [(''variant_price'', JStr ''7'')]]"
    "filter (price_within [] ''30'') [JObj [(''variant_price'', JStr ''oops'')],
                                     JObj [(''variant_price'', JStr ''7'')]]
       = [JObj [(''variant_price'', JStr ''7'')]]"
    by (simp_all add: price_readable_def price_within_def row_price_def member_def toNum_def n)
  have c: "row_price (JObj [(''variant_price'', JNum (Fin (2499 / 100)))])
             = Inr (Fin (2499 / 100)) \<and> StringToNumber ''24.99'' = Fin (2499 / 100)
           \<and> StringToNumber ''30'' = Fin 30 \<and> ''24.99'' \<noteq> [] \<and> ''30'' \<noteq> []"
    by (simp add: row_price_def member_def toNum_def n)
  have d: "\<not> list_all price_readable
               [JObj [(''variant_price'', JStr ''7'')],
                JObj [(''variant_price'', JArr [JObj [(''toString'', JNull)]])]]
           \<and> ([] \<noteq> [] \<or> ''30'' \<noteq> [])"
    by (simp add: price_readable_def row_price_def member_def toNum_def)
  show ?thesis
    using a b c d
      price_range_filter [of "[JObj [(''variant_price'', JStr ''oops'')],
                                    JObj [(''variant_price'', JStr ''7'')]]" "[]" "''30''"]
      price_range_filter [of "[JObj [(''variant_price'', JStr ''7'')],
                JObj [(''variant_price'', JArr [JObj [(''toString'', JNull)]])]]" "[]" "''30''"]
      price_range_filter [of "[]" "''24.99''" "''30''"
                             "JObj [(''variant_price'', JNum (Fin (2499 / 100)))]"
                             "2499 / 100" "2499 / 100" 30]
      price_range_filter [of "[]" "[]" "[]" "JObj [(''variant_price'', JStr ''24.99'')]"]
    by simp
qed

theorem price_range_filter_counterexample:
  "row_price (JObj [(''variant_price'', JObj [(''toString'', JNum (Fin 1))])]) = Inl TypeError
   \<and> filter_price ''20'' [] [JObj [(''variant_price'', JObj [(''toString'', JNum (Fin 1))])]]
       = Inl TypeError
   \<and> filter_price [] ''30'' [JObj [(''variant_price'', JObj [(''toString'', JNum (Fin 1))])]]
       = Inl TypeError"
  by (simp add: filter_price_def row_price_def member_def toNum_def)

section \<open>Properties of the flattening\<close>

lemma forEach_push:
  "forEach (\<lambda>rows x. Inr (rows @ [f x])) rows xs = Inr (rows @ map f xs)"
  by (induction xs arbitrary: rows) auto

lemma array_or_empty_shaped:
  "list_shaped v \<Longrightarrow> array_or_empty v = Inr (product_list v)"
  by (cases v) (auto simp: list_shaped_def array_or_empty_def product_list_def)

lemma add_product_shaped:
  "product_shaped p \<Longrightarrow>
   add_product idx type rows p = Inr (rows @ map (variant_row idx type p) (variant_list p))"
  by (simp add: product_shaped_def add_product_def get_prop_def array_or_empty_shaped
                forEach_push variant_list_def)

lemma forEach_add_product:
  "list_all product_shaped ps \<Longrightarrow>
   forEach (add_product idx type) rows ps = Inr (rows @ role_rows idx type ps)"
  by (induction ps arbitrary: rows) (auto simp: add_product_shaped role_rows_def)

lemma add_shaped:
  "list_shaped arr \<Longrightarrow> list_all product_shaped (product_list arr) \<Longrightarrow>
   add idx rows arr type = Inr (rows @ role_rows idx type (product_list arr))"
  by (simp add: add_def array_or_empty_shaped forEach_add_product)

lemma add_set_shaped:
  "set_shaped s \<Longrightarrow> add_set rows (idx, s) = Inr (rows @ set_rows idx s)"
  by (simp add: set_shaped_def add_set_def add_shaped set_rows_def trigger_products_def
                upsell_products_def)

lemma forEach_add_set:
  "list_all set_shaped (map snd ss) \<Longrightarrow>
   forEach add_set rows ss = Inr (rows @ concat (map (\<lambda>(idx, s). set_rows idx s) ss))"
  by (induction ss arbitrary: rows) (auto simp: add_set_shaped)

lemma flatVariants_shaped:
  "list_all set_shaped ss \<Longrightarrow>
   flatVariants ss = Inr (concat (map (\<lambda>(idx, s). set_rows idx s) (enumerate 0 ss)))"
  by (simp add: flatVariants_def forEach_add_set)

lemma length_role_rows:
  "length (role_rows idx type ps) = length (concat (map variant_list ps))"
  by (induction ps) (auto simp: role_rows_def)

lemma length_set_rows: "length (set_rows idx s) = length (set_variants s)"
  by (simp add: set_rows_def set_variants_def length_role_rows)

lemma map_of_spread:
  "map_of (foldl (\<lambda>acc (k, x). AList.update k x acc) base es) = map_of base ++ map_of (rev es)"
  by (induction es arbitrary: base) (auto simp: update_conv' map_add_upd_left)

lemma map_of_rev_distinct:
  "distinct (map fst xs) \<Longrightarrow> map_of (rev xs) = map_of xs"
proof (induction xs)
  case Nil
  then show ?case by simp
next
  case (Cons x xs)
  obtain a b where x: "x = (a, b)" by (cases x)
  from Cons.prems have n: "map_of xs a = None"
    by (auto simp: x map_of_eq_None_iff)
  have "map_of (rev (x # xs)) = map_of [(a, b)] ++ map_of xs"
    using Cons by (simp add: x)
  also have "\<dots> = (map_of xs)(a \<mapsto> b)"
    using n by (auto simp: map_add_def fun_eq_iff split: option.splits)
  finally show ?case by (simp add: x)
qed

lemma own_entries_JNull [simp]: "own_entries JNull = []" "own_entries JUndefined = []"
  by (simp_all add: own_entries_def)

lemma member_variant_row:
  "member (variant_row idx type p v) k =
     (case map_of (rev (own_entries v)) k of
        Some x \<Rightarrow> x
      | None \<Rightarrow> member (JObj (context_fields idx type p)) k)"
  by (simp add: member_def variant_row_def spread_def map_of_spread map_add_def
           split: option.splits)

lemma has_own_key_iff: "has_own_key v k \<longleftrightarrow> map_of (rev (own_entries v)) k \<noteq> None"
  by (simp add: has_own_key_def map_of_eq_None_iff)

lemma member_variant_row_context:
  "\<not> has_own_key v k \<Longrightarrow>
     member (variant_row idx type p v) k = member (JObj (context_fields idx type p)) k"
  by (simp add: member_variant_row has_own_key_iff)

lemma context_values:
  "member (JObj (context_fields idx type p)) ''set_index'' = JNum (Fin (of_nat idx))"
  "member (JObj (context_fields idx type p)) ''trigger_type'' = JStr type"
  "member (JObj (context_fields idx type p)) ''product_id'' = member p ''product_id''"
  "member (JObj (context_fields idx type p)) ''product_title'' = member p ''product_title''"
  by (simp_all add: member_def context_fields_def)

lemma member_variant_row_object:
  assumes "distinct (map fst al)"
  shows "member (variant_row idx type p (JObj al)) k =
     (if has_own_key (JObj al) k then member (JObj al) k
      else member (JObj (context_fields idx type p)) k)"
proof -
  have e: "map_of (rev (own_entries (JObj al))) k = map_of al k"
    using assms by (simp add: own_entries_def map_of_rev_distinct)
  have m: "member (JObj al) k = (case map_of al k of None \<Rightarrow> JUndefined | Some x \<Rightarrow> x)"
    by (simp add: member_def)
  show ?thesis
    unfolding member_variant_row [of idx type p "JObj al" k] has_own_key_iff e m
    by (cases "map_of al k") simp_all
qed

lemma trigger_type_role_rows:
  "\<forall>p \<in> set ps. \<forall>v \<in> set (variant_list p). \<not> has_own_key v ''trigger_type'' \<Longrightarrow>
   map (\<lambda>r. member r ''trigger_type'') (role_rows idx type ps)
     = replicate (length (concat (map variant_list ps))) (JStr type)"
proof (induction ps)
  case Nil
  then show ?case by (simp add: role_rows_def)
next
  case (Cons p ps)
  have "map (\<lambda>r. member r ''trigger_type'') (map (variant_row idx type p) (variant_list p))
          = replicate (length (variant_list p)) (JStr type)"
    using Cons.prems
    by (auto simp: map_replicate_const [symmetric] member_variant_row_context context_values
             simp del: map_replicate_const)
  with Cons show ?case
    by (simp add: role_rows_def replicate_add)
qed

lemma set_index_role_rows:
  "\<forall>p \<in> set ps. \<forall>v \<in> set (variant_list p). \<not> has_own_key v ''set_index'' \<Longrightarrow>
   map (\<lambda>r. member r ''set_index'') (role_rows idx type ps)
     = replicate (length (concat (map variant_list ps))) (JNum (Fin (of_nat idx)))"
proof (induction ps)
  case Nil
  then show ?case by (simp add: role_rows_def)
next
  case (Cons p ps)
  have "map (\<lambda>r. member r ''set_index'') (map (variant_row idx type p) (variant_list p))
          = replicate (length (variant_list p)) (JNum (Fin (of_nat idx)))"
    using Cons.prems
    by (auto simp: map_replicate_const [symmetric] member_variant_row_context context_values
             simp del: map_replicate_const)
  with Cons show ?case
    by (simp add: role_rows_def replicate_add)
qed

lemma trigger_type_set_rows:
  assumes "\<forall>v \<in> set (set_variants s). \<not> has_own_key v ''trigger_type''"
  shows "map (\<lambda>r. member r ''trigger_type'') (set_rows idx s)
     = replicate (length (concat (map variant_list (trigger_products s)))) (JStr ''product'')
       @ replicate (length (concat (map variant_list (upsell_products s)))) (JStr ''upsell'')"
proof -
  have t: "\<forall>p \<in> set (trigger_products s). \<forall>v \<in> set (variant_list p).
             \<not> has_own_key v ''trigger_type''"
    using assms by (auto simp: set_variants_def)
  have u: "\<forall>p \<in> set (upsell_products s). \<forall>v \<in> set (variant_list p).
             \<not> has_own_key v ''trigger_type''"
    using assms by (auto simp: set_variants_def)
  show ?thesis
    by (simp add: set_rows_def trigger_type_role_rows [OF t] trigger_type_role_rows [OF u])
qed

text \<open>
  C4, as amended. For trigger sets of the shape the data model describes, the
  flattening raises no error and gives, set after set, the rows of the set: one row per
  variant of each product of the trigger role, in the order of the input, then one row
  per variant of each product of the upsell role. A set whose trigger products have \<open>M\<close>
  variants in all and whose upsell products have \<open>P\<close> gives \<open>M + P\<close> rows; when no variant
  has an own entry \<open>trigger_type\<close>, the first \<open>M\<close> rows carry the trigger type
  \<open>product\<close> and the other \<open>P\<close> the trigger type \<open>upsell\<close>. A product without variants
  gives no row, and a set without the two blocks gives none and no error.
\<close>

theorem flatten_row_counts:
  "(list_all set_shaped ss \<longrightarrow>
      flatVariants ss = Inr (concat (map (\<lambda>(idx, s). set_rows idx s) (enumerate 0 ss))))
   \<and> (set_shaped s \<longrightarrow> flatVariants [s] = Inr (set_rows 0 s))
   \<and> set_rows idx s = role_rows idx ''product'' (trigger_products s)
                       @ role_rows idx ''upsell'' (upsell_products s)
   \<and> length (role_rows idx type ps) = length (concat (map variant_list ps))
   \<and> length (set_rows idx s)
       = length (concat (map variant_list (trigger_products s)))
         + length (concat (map variant_list (upsell_products s)))
   \<and> ((\<forall>v \<in> set (set_variants s). \<not> has_own_key v ''trigger_type'') \<longrightarrow>
        map (\<lambda>r. member r ''trigger_type'') (set_rows idx s)
          = replicate (length (concat (map variant_list (trigger_products s)))) (JStr ''product'')
            @ replicate (length (concat (map variant_list (upsell_products s)))) (JStr ''upsell''))
   \<and> (variant_list p = [] \<longrightarrow> role_rows idx type [p] = [])
   \<and> (opt_prop s ''triggerProduct'' = JUndefined \<longrightarrow> trigger_products s = [])
   \<and> (opt_prop s ''triggerUpsell'' = JUndefined \<longrightarrow> upsell_products s = [])
   \<and> flatVariants [JObj []] = Inr []"
proof -
  have a: "list_all set_shaped ss \<longrightarrow>
      flatVariants ss = Inr (concat (map (\<lambda>(idx, s). set_rows idx s) (enumerate 0 ss)))"
    by (simp add: flatVariants_shaped)
  have b: "set_shaped s \<longrightarrow> flatVariants [s] = Inr (set_rows 0 s)"
    using flatVariants_shaped [of "[s]"] by simp
  have c: "length (set_rows idx s)
       = length (concat (map variant_list (trigger_products s)))
         + length (concat (map variant_list (upsell_products s)))"
    by (simp add: set_rows_def length_role_rows)
  have d: "variant_list p = [] \<longrightarrow> role_rows idx type [p] = []"
    by (simp add: role_rows_def)
  have e: "opt_prop s ''triggerProduct'' = JUndefined \<longrightarrow> trigger_products s = []"
          "opt_prop s ''triggerUpsell'' = JUndefined \<longrightarrow> upsell_products s = []"
    by (simp_all add: trigger_products_def upsell_products_def opt_prop_def product_list_def)
  have f: "flatVariants [JObj []] = Inr []"
    by (simp add: flatVariants_def add_set_def add_def opt_prop_def member_def
                  array_or_empty_def)
  show ?thesis
    using a b c d e f trigger_type_set_rows [of s idx] length_role_rows [of idx type ps]
    by (simp add: set_rows_def)
qed

theorem flatten_row_counts_witness:
  "list_all set_shaped tinyExample
   \<and> flatVariants tinyExample = Inr (set_rows 0 (hd tinyExample))
   \<and> length (concat (map variant_list (trigger_products (hd tinyExample)))) = 2
   \<and> length (concat (map variant_list (upsell_products (hd tinyExample)))) = 1
   \<and> length (set_rows 0 (hd tinyExample)) = 3
   \<and> map (\<lambda>r. member r ''trigger_type'') (set_rows 0 (hd tinyExample))
        = [JStr ''product'', JStr ''product'', JStr ''upsell'']"
proof -
  have a: "list_all set_shaped tinyExample"
    by code_simp
  have b: "set_shaped (hd tinyExample)"
    by code_simp
  have c: "\<forall>v \<in> set (set_variants (hd tinyExample)). \<not> has_own_key v ''trigger_type''"
    by code_simp
  have d: "length (concat (map variant_list (trigger_products (hd tinyExample)))) = 2"
          "length (concat (map variant_list (upsell_products (hd tinyExample)))) = 1"
    by code_simp+
  have e: "tinyExample = [hd tinyExample]"
    by (simp add: tinyExample_def)
  have f: "flatVariants [hd tinyExample] = Inr (set_rows 0 (hd tinyExample))"
    using b flatten_row_counts [of "[]" "hd tinyExample"] by simp
  have g: "flatVariants tinyExample = Inr (set_rows 0 (hd tinyExample))"
    using f e by simp
  note T = flatten_row_counts [of tinyExample "hd tinyExample" 0 "''product''" "[]" JNull]
  from T have len: "length (set_rows 0 (hd tinyExample))
       = length (concat (map variant_list (trigger_products (hd tinyExample))))
         + length (concat (map variant_list (upsell_products (hd tinyExample))))"
    by blast
  from T c have m: "map (\<lambda>r. member r ''trigger_type'') (set_rows 0 (hd tinyExample))
          = replicate (length (concat (map variant_list (trigger_products (hd tinyExample)))))
                      (JStr ''product'')
            @ replicate (length (concat (map variant_list (upsell_products (hd tinyExample)))))
                        (JStr ''upsell'')"
    by blast
  have l3: "length (set_rows 0 (hd tinyExample)) = 3"
    unfolding len d by simp
  have m3: "map (\<lambda>r. member r ''trigger_type'') (set_rows 0 (hd tinyExample))
        = [JStr ''product'', JStr ''product'', JStr ''upsell'']"
    unfolding m d by (simp add: numeral_2_eq_2)
  show ?thesis
    using a g d l3 m3 by blast
qed

text \<open>
  The claim as it stands fails on a trigger set whose only trigger product has one
  variant with an own entry \<open>trigger_type\<close>: the set has one trigger variant and no
  upsell variant, and its one row carries the trigger type \<open>upsell\<close>.
\<close>

theorem flatten_row_counts_counterexample:
  "set_shaped (JObj [(''triggerProduct'', JObj [(''selectedTriggerProducts'',
       JArr [JObj [(''product_id'', JStr ''p1''),
                   (''product_variants'',
                    JArr [JObj [(''variant_id'', JStr ''v1''),
                                (''trigger_type'', JStr ''upsell'')]])]])])])
   \<and> length (concat (map variant_list (trigger_products
        (JObj [(''triggerProduct'', JObj [(''selectedTriggerProducts'',
           JArr [JObj [(''product_id'', JStr ''p1''),
                       (''product_variants'',
                        JArr [JObj [(''variant_id'', JStr ''v1''),
                                    (''trigger_type'', JStr ''upsell'')]])]])])])))) = 1
   \<and> flatVariants
        [JObj [(''triggerProduct'', JObj [(''selectedTriggerProducts'',
           JArr [JObj [(''product_id'', JStr ''p1''),
                       (''product_variants'',
                        JArr [JObj [(''variant_id'', JStr ''v1''),
                                    (''trigger_type'', JStr ''upsell'')]])]])])]]
       = Inr [JObj
               [(''set_index'', JNum (Fin 0)), (''trigger_type'', JStr ''upsell''),
                (''product_id'', JStr ''p1''), (''product_title'', JUndefined),
                (''product_vendor'', JUndefined), (''product_url'', JUndefined),
                (''product_handle'', JUndefined), (''product_image'', JUndefined),
                (''product_collections'', JArr []), (''product_tags'', JArr []),
                (''product_description'', JStr []), (''variant_id'', JStr ''v1'')]]"
  by code_simp

text \<open>
  C9. The value of a key in a flattened row is the value of the variant's own entry for
  the key when the variant has one, and the value written before the spread otherwise.
  So \<open>set_index\<close> is the position of the trigger set and \<open>trigger_type\<close> the role exactly
  for the variants without such entries; a variant that is an object with such an entry
  (or an entry for one of the \<open>product_\<close> keys) has its own value in the row.
\<close>

theorem variant_keys_override:
  "member (variant_row idx type p v) k =
     (case map_of (rev (own_entries v)) k of
        Some x \<Rightarrow> x
      | None \<Rightarrow> member (JObj (context_fields idx type p)) k)
   \<and> (distinct (map fst al) \<longrightarrow>
        member (variant_row idx type p (JObj al)) k =
          (if has_own_key (JObj al) k then member (JObj al) k
           else member (JObj (context_fields idx type p)) k))
   \<and> member (JObj (context_fields idx type p)) ''set_index'' = JNum (Fin (of_nat idx))
   \<and> member (JObj (context_fields idx type p)) ''trigger_type'' = JStr type
   \<and> member (JObj (context_fields idx type p)) ''product_id'' = member p ''product_id''
   \<and> (\<not> has_own_key v ''set_index'' \<longrightarrow>
        member (variant_row idx type p v) ''set_index'' = JNum (Fin (of_nat idx)))
   \<and> (\<not> has_own_key v ''trigger_type'' \<longrightarrow>
        member (variant_row idx type p v) ''trigger_type'' = JStr type)
   \<and> (distinct (map fst al) \<and> map_of al k = Some x \<longrightarrow>
        member (variant_row idx type p (JObj al)) k = x)
   \<and> (list_all set_shaped ss \<longrightarrow>
        flatVariants ss = Inr (concat (map (\<lambda>(idx, s). set_rows idx s) (enumerate 0 ss))))
   \<and> set_rows idx s
       = concat (map (\<lambda>p. map (variant_row idx ''product'' p) (variant_list p))
                     (trigger_products s))
         @ concat (map (\<lambda>p. map (variant_row idx ''upsell'' p) (variant_list p))
                       (upsell_products s))"
proof -
  have a: "distinct (map fst al) \<and> map_of al k = Some x \<longrightarrow>
        member (variant_row idx type p (JObj al)) k = x"
    by (simp add: member_variant_row own_entries_def map_of_rev_distinct)
  have b: "\<not> has_own_key v ''set_index'' \<longrightarrow>
        member (variant_row idx type p v) ''set_index'' = JNum (Fin (of_nat idx))"
       "\<not> has_own_key v ''trigger_type'' \<longrightarrow>
        member (variant_row idx type p v) ''trigger_type'' = JStr type"
    by (simp_all add: member_variant_row_context context_values)
  have c: "set_rows idx s
       = concat (map (\<lambda>p. map (variant_row idx ''product'' p) (variant_list p))
                     (trigger_products s))
         @ concat (map (\<lambda>p. map (variant_row idx ''upsell'' p) (variant_list p))
                       (upsell_products s))"
    by (simp add: set_rows_def role_rows_def)
  show ?thesis
    using a b c member_variant_row [of idx type p v k] member_variant_row_object [of al idx type p k]
          context_values(1,2,3) [of idx type p] flatVariants_shaped [of ss]
    by blast
qed

theorem variant_keys_override_witness:
  "distinct (map fst [(''product_id'', JStr ''mine''), (''set_index'', JNum (Fin 7))])
   \<and> member (variant_row 1 ''upsell'' (JObj [(''product_id'', JStr ''p1'')])
               (JObj [(''product_id'', JStr ''mine''), (''set_index'', JNum (Fin 7))]))
        ''set_index'' = JNum (Fin 7)
   \<and> member (variant_row 1 ''upsell'' (JObj [(''product_id'', JStr ''p1'')])
               (JObj [(''product_id'', JStr ''mine''), (''set_index'', JNum (Fin 7))]))
        ''trigger_type'' = JStr ''upsell''
   \<and> member (variant_row 1 ''upsell'' (JObj [(''product_id'', JStr ''p1'')])
               (JObj [(''variant_id'', JStr ''v1'')]))
        ''set_index'' = JNum (Fin 1)
   \<and> flatVariants [JNull, JObj [(''triggerUpsell'', JObj [(''selectedUpsellProducts'',
           JArr [JObj [(''product_id'', JStr ''p1''),
                       (''product_variants'',
                        JArr [JObj [(''product_id'', JStr ''mine''),
                                    (''set_index'', JNum (Fin 7))]])]])])]]
       = Inr [JObj
               [(''set_index'', JNum (Fin 7)), (''trigger_type'', JStr ''upsell''),
                (''product_id'', JStr ''mine''), (''product_title'', JUndefined),
                (''product_vendor'', JUndefined), (''product_url'', JUndefined),
                (''product_handle'', JUndefined), (''product_image'', JUndefined),
                (''product_collections'', JArr []), (''product_tags'', JArr []),
                (''product_description'', JStr [])]]"
proof -
  let ?al = "[(''product_id'', JStr ''mine''), (''set_index'', JNum (Fin 7))]"
  let ?p = "JObj [(''product_id'', JStr ''p1'')]"
  have d: "distinct (map fst ?al)"
    by simp
  have h1: "map_of ?al ''set_index'' = Some (JNum (Fin 7))"
    by simp
  have h2: "\<not> has_own_key (JObj ?al) ''trigger_type''"
    by (simp add: has_own_key_def own_entries_def)
  have h3: "\<not> has_own_key (JObj [(''variant_id'', JStr ''v1'')]) ''set_index''"
    by (simp add: has_own_key_def own_entries_def)
  have f: "flatVariants [JNull, JObj [(''triggerUpsell'', JObj [(''selectedUpsellProducts'',
           JArr [JObj [(''product_id'', JStr ''p1''),
                       (''product_variants'',
                        JArr [JObj [(''product_id'', JStr ''mine''),
                                    (''set_index'', JNum (Fin 7))]])]])])]]
       = Inr [JObj
               [(''set_index'', JNum (Fin 7)), (''trigger_type'', JStr ''upsell''),
                (''product_id'', JStr ''mine''), (''product_title'', JUndefined),
                (''product_vendor'', JUndefined), (''product_url'', JUndefined),
                (''product_handle'', JUndefined), (''product_image'', JUndefined),
                (''product_collections'', JArr []), (''product_tags'', JArr []),
                (''product_description'', JStr [])]]"
    by code_simp
  have o: "of_nat (1::nat) = (1::rat)"
    by simp
  show ?thesis
    using d h1 h2 f
      variant_keys_override [of 1 "''upsell''" ?p "JObj ?al" "''set_index''" ?al "JNum (Fin 7)"]
      variant_keys_override [of 1 "''upsell''" ?p "JObj [(''variant_id'', JStr ''v1'')]"] h3
    unfolding o by blast
qed

section \<open>Properties of the product summaries\<close>

lemma asNumber_error: "asNumber v = Inl e \<longleftrightarrow> to_String v = Inl e"
  by (cases v) (auto simp: asNumber_def split: sum.splits)

lemma coercible_iff: "coercible k v \<longleftrightarrow> asNumber (member v k) \<noteq> Inl TypeError"
proof -
  have "asNumber (member v k) = Inl e \<Longrightarrow> e = TypeError" for e
    using to_String_error(1) by (simp add: asNumber_error)
  then show ?thesis
    by (auto simp: coercible_def split: sum.splits)
qed

lemma map_throwing_coerce:
  assumes "\<forall>v \<in> set vs. v \<noteq> JNull \<and> v \<noteq> JUndefined"
  shows "map_throwing (\<lambda>v. case get_prop v k of Inl e \<Rightarrow> Inl e | Inr x \<Rightarrow> asNumber x) vs
           = (if list_all (coercible k) vs
              then Inr (map (\<lambda>v. projr (asNumber (member v k))) vs)
              else Inl TypeError)"
  using assms
proof (induction vs)
  case Nil
  then show ?case by simp
next
  case (Cons v vs)
  have g: "get_prop v k = Inr (member v k)"
    using Cons.prems by (simp add: get_prop_def)
  show ?case
  proof (cases "asNumber (member v k)")
    case (Inl e)
    then have "e = TypeError"
      using to_String_error(1) by (simp add: asNumber_error)
    then show ?thesis
      using Inl by (simp add: g coercible_def)
  next
    case (Inr x)
    then show ?thesis
      using Cons by (simp add: g coercible_def)
  qed
qed

lemma concat_coerced:
  assumes "list_all (coercible k) vs"
  shows "concat (map (\<lambda>x. case x of None \<Rightarrow> [] | Some r \<Rightarrow> [r])
                     (map (\<lambda>v. projr (asNumber (member v k))) vs))
           = concat (map (\<lambda>v. case asNumber (member v k) of
                                 Inl e \<Rightarrow> [] | Inr None \<Rightarrow> [] | Inr (Some r) \<Rightarrow> [r]) vs)"
  using assms by (induction vs) (auto simp: coercible_def split: sum.splits option.splits)

lemma Math_min_Min: "xs \<noteq> [] \<Longrightarrow> Math_min xs = Min (set xs)"
proof -
  assume "xs \<noteq> []"
  then obtain y ys where xs: "xs = y # ys" by (cases xs) auto
  have "Math_min xs = fold min ys y"
    by (simp add: Math_min_def xs foldl_conv_fold min.commute)
  also have "\<dots> = Min (set (y # ys))"
    by (rule Min.set_eq_fold [symmetric])
  finally show ?thesis by (simp only: xs)
qed

lemma Math_max_Max: "xs \<noteq> [] \<Longrightarrow> Math_max xs = Max (set xs)"
proof -
  assume "xs \<noteq> []"
  then obtain y ys where xs: "xs = y # ys" by (cases xs) auto
  have "Math_max xs = fold max ys y"
    by (simp add: Math_max_def xs foldl_conv_fold max.commute)
  also have "\<dots> = Max (set (y # ys))"
    by (rule Max.set_eq_fold [symmetric])
  finally show ?thesis by (simp only: xs)
qed

lemma foldl_exact_plus: "foldl exact_plus (Fin a) (map Fin xs) = Fin (a + sum_list xs)"
  by (induction xs arbitrary: a) (auto simp: algebra_simps)

lemma coerced_Nil_iff:
  "coerced field p = []
     \<longleftrightarrow> (\<forall>v \<in> set (variant_list p). \<forall>r. asNumber (member v field) \<noteq> Inr (Some r))"
  by (auto simp: coerced_def split: sum.splits option.splits)

lemma deriveProductRow_shaped:
  assumes "p \<noteq> JNull" "p \<noteq> JUndefined"
      and "\<forall>v \<in> set (variant_list p). v \<noteq> JNull \<and> v \<noteq> JUndefined"
      and "list_all (\<lambda>v. coercible ''variant_price'' v \<and> coercible ''inventory_quantity'' v)
                    (variant_list p)"
  shows "deriveProductRow add_numbers p src =
     Inr \<lparr> source = src,
           product_id = member p ''product_id'',
           product_title = member p ''product_title'',
           product_description = member p ''product_description'',
           product_handle = member p ''product_handle'',
           product_vendor = member p ''product_vendor'',
           product_tags = member p ''product_tags'',
           product_collections = member p ''product_collections'',
           product_url = member p ''product_url'',
           product_image = member p ''product_image'',
           product_variants = variant_list p,
           price_min = (if coerced ''variant_price'' p = [] then None
                        else Some (Min (set (coerced ''variant_price'' p)))),
           price_max = (if coerced ''variant_price'' p = [] then None
                        else Some (Max (set (coerced ''variant_price'' p)))),
           inventory_total =
             (if coerced ''inventory_quantity'' p = [] then None
              else Some (foldl add_numbers (Fin 0) (map Fin (coerced ''inventory_quantity'' p)))),
           available = (if variant_list p = [] then None
                        else Some (\<exists>v \<in> set (variant_list p).
                                     to_Boolean (member v ''variant_available''))) \<rparr>"
proof -
  have v: "(case member p ''product_variants'' of JArr vs \<Rightarrow> vs | _ \<Rightarrow> []) = variant_list p"
    by (simp add: variant_list_def product_list_def)
  have g: "get_prop p ''product_variants'' = Inr (member p ''product_variants'')"
    using assms(1,2) by (simp add: get_prop_def)
  have l: "list_all (coercible ''variant_price'') (variant_list p)"
          "list_all (coercible ''inventory_quantity'') (variant_list p)"
    using assms(4) by (simp_all add: list_all_iff)
  have m1: "map_throwing (\<lambda>v. case get_prop v ''variant_price'' of
                                  Inl e \<Rightarrow> Inl e | Inr x \<Rightarrow> asNumber x) (variant_list p)
              = Inr (map (\<lambda>v. projr (asNumber (member v ''variant_price''))) (variant_list p))"
    using map_throwing_coerce [OF assms(3), of "''variant_price''"] l(1) by simp
  have m2: "map_throwing (\<lambda>v. case get_prop v ''inventory_quantity'' of
                                  Inl e \<Rightarrow> Inl e | Inr x \<Rightarrow> asNumber x) (variant_list p)
              = Inr (map (\<lambda>v. projr (asNumber (member v ''inventory_quantity''))) (variant_list p))"
    using map_throwing_coerce [OF assms(3), of "''inventory_quantity''"] l(2) by simp
  have c1: "concat (map (\<lambda>x. case x of None \<Rightarrow> [] | Some r \<Rightarrow> [r])
                        (map (\<lambda>v. projr (asNumber (member v ''variant_price''))) (variant_list p)))
              = coerced ''variant_price'' p"
    unfolding coerced_def by (rule concat_coerced [OF l(1)])
  have c2: "concat (map (\<lambda>x. case x of None \<Rightarrow> [] | Some r \<Rightarrow> [r])
                        (map (\<lambda>v. projr (asNumber (member v ''inventory_quantity''))) (variant_list p)))
              = coerced ''inventory_quantity'' p"
    unfolding coerced_def by (rule concat_coerced [OF l(2)])
  have d: "deriveProductRow add_numbers p src =
     Inr \<lparr> source = src,
           product_id = member p ''product_id'',
           product_title = member p ''product_title'',
           product_description = member p ''product_description'',
           product_handle = member p ''product_handle'',
           product_vendor = member p ''product_vendor'',
           product_tags = member p ''product_tags'',
           product_collections = member p ''product_collections'',
           product_url = member p ''product_url'',
           product_image = member p ''product_image'',
           product_variants = variant_list p,
           price_min = (if coerced ''variant_price'' p \<noteq> []
                        then Some (Math_min (coerced ''variant_price'' p)) else None),
           price_max = (if coerced ''variant_price'' p \<noteq> []
                        then Some (Math_max (coerced ''variant_price'' p)) else None),
           inventory_total =
             (if coerced ''inventory_quantity'' p \<noteq> []
              then Some (foldl add_numbers (Fin 0) (map Fin (coerced ''inventory_quantity'' p)))
              else None),
           available = (if variant_list p \<noteq> []
                        then Some (list_ex (\<lambda>v. to_Boolean (member v ''variant_available''))
                                           (variant_list p))
                        else None) \<rparr>"
    by (simp only: deriveProductRow_def g sum.case Let_def v m1 m2 c1 c2)
  show ?thesis
    unfolding d
    by (simp add: Math_min_Min Math_max_Max list_ex_iff)
qed

lemma deriveProductRow_throws:
  assumes "p \<noteq> JNull" "p \<noteq> JUndefined"
      and "\<forall>v \<in> set (variant_list p). v \<noteq> JNull \<and> v \<noteq> JUndefined"
      and "\<not> list_all (\<lambda>v. coercible ''variant_price'' v \<and> coercible ''inventory_quantity'' v)
                    (variant_list p)"
  shows "deriveProductRow add_numbers p src = Inl TypeError"
proof -
  have v: "(case member p ''product_variants'' of JArr vs \<Rightarrow> vs | _ \<Rightarrow> []) = variant_list p"
    by (simp add: variant_list_def product_list_def)
  have g: "get_prop p ''product_variants'' = Inr (member p ''product_variants'')"
    using assms(1,2) by (simp add: get_prop_def)
  have l: "\<not> list_all (coercible ''variant_price'') (variant_list p)
           \<or> \<not> list_all (coercible ''inventory_quantity'') (variant_list p)"
    using assms(4) by (auto simp: list_all_iff)
  show ?thesis
    using l
    by (auto simp: deriveProductRow_def g v Let_def
                   map_throwing_coerce [OF assms(3), of "''variant_price''"]
                   map_throwing_coerce [OF assms(3), of "''inventory_quantity''"])
qed





section \<open>Properties of the loading actions\<close>

text \<open>
  C10. When the chunks of the Parse action (the parse of the input text, or the built-in
  example for a blank input) are empty, the action leaves the state as it was but for
  the error message, now \<open>Could not parse any JSON objects.\<close>: the loaded trigger sets
  and the input text are unchanged. When the texts of the uploaded files give no parsed
  value at all, the upload leaves the state as it was but for the error message
  \<open>No valid JSON objects found in selected files.\<close>; an absent file list changes nothing.
  The built-in example is not empty, so the first case only arises from the input text.
\<close>

theorem parse_failure_keeps_sets:
  "((if trim (raw st) \<noteq> [] then parsePossiblyMany (raw st) else tinyExample) = [] \<longrightarrow>
      handleParse st = st\<lparr>error := ''Could not parse any JSON objects.''\<rparr>
      \<and> sets (handleParse st) = sets st \<and> raw (handleParse st) = raw st)
   \<and> (concat (map parsePossiblyMany texts) = [] \<longrightarrow>
      onFiles (Some texts) st = st\<lparr>error := ''No valid JSON objects found in selected files.''\<rparr>
      \<and> sets (onFiles (Some texts) st) = sets st \<and> raw (onFiles (Some texts) st) = raw st)
   \<and> onFiles None st = st
   \<and> tinyExample \<noteq> []"
  by (simp add: handleParse_def onFiles_def Let_def tinyExample_def)

theorem parse_failure_keeps_sets_witness:
  "handleParse \<lparr>raw = ''{not json}'', sets = [JNull, JBool True], error = ''old''\<rparr>
     = \<lparr>raw = ''{not json}'', sets = [JNull, JBool True],
        error = ''Could not parse any JSON objects.''\<rparr>
   \<and> onFiles (Some [''{not json}'', '' ''])
        \<lparr>raw = ''{not json}'', sets = [JNull, JBool True], error = ''old''\<rparr>
     = \<lparr>raw = ''{not json}'', sets = [JNull, JBool True],
        error = ''No valid JSON objects found in selected files.''\<rparr>"
proof -
  have p: "parsePossiblyMany ''{not json}'' = []"
    by code_simp
  have q: "parsePossiblyMany '' '' = []"
    by (simp add: parsePossiblyMany_def trim_def is_js_space_def)
  have t: "trim ''{not json}'' \<noteq> []"
    by (simp add: trim_def is_js_space_def)
  show ?thesis
    using parse_failure_keeps_sets
            [of "\<lparr>raw = ''{not json}'', sets = [JNull, JBool True], error = ''old''\<rparr>"
                "[''{not json}'', '' '']"]
    by (simp add: p q t)
qed
end
